theory Spec2Isabelle
  imports Complex_Main "HOL-Library.Sublist" "HOL-Library.Log_Nat"
begin

section \<open>Numbers and strings of the host language\<close>

text \<open>
  The TypeScript sources compute with \<open>number\<close>, the IEEE 754 binary64 format. A finite
  double is a rational, so the values are of type \<open>rat\<close>, and every arithmetic operation
  of the sources is the exact operation followed by \<open>binary64\<close>, the rounding to the
  nearest number with a 53-bit significand, a tie going to the even significand. The
  exponent is not bounded here: the model is that of the hardware as long as no result
  leaves the range of the normal doubles (about \<open>2.2e-308\<close> to \<open>1.8e308\<close> in size), and
  \<open>NaN\<close> and the infinities do not occur. Counts read from the chain and timestamps in
  milliseconds are whole numbers and are \<open>nat\<close> and \<open>int\<close>.
\<close>

definition expo :: "rat \<Rightarrow> int" where
  \<comment> \<open>The binary exponent of a nonzero number: \<open>2 ^ expo x \<le> |x| < 2 ^ (expo x + 1)\<close>.\<close>
  "expo x =
     (let (p, q) = quotient_of \<bar>x\<bar>;
          k = bitlen p - bitlen q
      in if 2 powi k \<le> \<bar>x\<bar> then k else k - 1)"

definition round_half_even :: "rat \<Rightarrow> int" where
  "round_half_even q =
     (let f = \<lfloor>q\<rfloor>; r = q - of_int f
      in if r < 1 / 2 then f
         else if 1 / 2 < r then f + 1
         else if even f then f else f + 1)"

definition binary64_pos :: "rat \<Rightarrow> rat" where
  \<comment> \<open>Rounding of a positive number to 53 significant bits.\<close>
  "binary64_pos x =
     (let ulp = 2 powi (expo x - 52)
      in of_int (round_half_even (x / ulp)) * ulp)"

definition binary64 :: "rat \<Rightarrow> rat" where
  "binary64 x =
     (if x = 0 then 0
      else if x < 0 then - binary64_pos (- x)
      else binary64_pos x)"

definition fmul :: "rat \<Rightarrow> rat \<Rightarrow> rat" where
  \<comment> \<open>\<open>x * y\<close> on doubles\<close>
  "fmul x y = binary64 (x * y)"

definition fadd :: "rat \<Rightarrow> rat \<Rightarrow> rat" where
  \<comment> \<open>\<open>x + y\<close> on doubles\<close>
  "fadd x y = binary64 (x + y)"

definition fsub :: "rat \<Rightarrow> rat \<Rightarrow> rat" where
  \<comment> \<open>\<open>x - y\<close> on doubles\<close>
  "fsub x y = binary64 (x - y)"

definition fdiv :: "rat \<Rightarrow> rat \<Rightarrow> rat" where
  \<comment> \<open>\<open>x / y\<close> on doubles\<close>
  "fdiv x y = binary64 (x / y)"

definition Math_round :: "rat \<Rightarrow> int" where
  \<comment> \<open>\<open>Math.round\<close>: the nearest integer, a tie going towards plus infinity. The
     result is exact; it is not computed by a rounded addition.\<close>
  "Math_round x = \<lfloor>x + 1 / 2\<rfloor>"

definition digit_char :: "nat \<Rightarrow> char" where
  "digit_char n = char_of (48 + n)"

fun string_of_nat :: "nat \<Rightarrow> string" where
  "string_of_nat n =
     (if n < 10 then [digit_char n]
      else string_of_nat (n div 10) @ [digit_char (n mod 10)])"

declare string_of_nat.simps [simp del]

definition string_of_int :: "int \<Rightarrow> string" where
  \<comment> \<open>What a template literal prints for a whole number (below \<open>10^21\<close> in size).\<close>
  "string_of_int i =
     (if i < 0 then CHR ''-'' # string_of_nat (nat (- i)) else string_of_nat (nat i))"

definition toLowerChar :: "char \<Rightarrow> char" where
  "toLowerChar c =
     (let n = (of_char c :: nat) in if 65 \<le> n \<and> n \<le> 90 then char_of (n + 32) else c)"

definition toLowerCase :: "string \<Rightarrow> string" where
  \<comment> \<open>\<open>String.prototype.toLowerCase\<close> on the ASCII letters; other characters stay.\<close>
  "toLowerCase s = map toLowerChar s"

fun includes_str :: "string \<Rightarrow> string \<Rightarrow> bool" where
  \<comment> \<open>\<open>s.includes(t)\<close>: \<open>t\<close> occurs in \<open>s\<close> as a contiguous run.\<close>
  "includes_str [] t = (t = [])"
| "includes_str (c # cs) t = (prefix t (c # cs) \<or> includes_str cs t)"

fun findIndex :: "('a \<Rightarrow> bool) \<Rightarrow> 'a list \<Rightarrow> nat option" where
  \<comment> \<open>\<open>Array.prototype.findIndex\<close>; the result \<open>-1\<close> is \<open>None\<close>.\<close>
  "findIndex p [] = None"
| "findIndex p (x # xs) =
     (if p x then Some 0 else map_option Suc (findIndex p xs))"


section \<open>Engagement scorer (engagement/tracker.ts)\<close>

definition normalized :: "rat \<Rightarrow> rat \<Rightarrow> rat \<Rightarrow> rat" where
  \<comment> \<open>\<open>Math.min(count / (expectedDaily * days), 1)\<close>\<close>
  "normalized count expected days = min (fdiv count (fmul expected days)) 1"

definition calculateEngagementScore :: "rat \<Rightarrow> rat \<Rightarrow> rat \<Rightarrow> rat \<Rightarrow> int" where
  "calculateEngagementScore transferCount uniqueHolders socialMentions daysSinceDeployment =
     (let transferWeight = binary64 0.4;
          holderWeight = binary64 0.3;
          socialWeight = binary64 0.3;
          days = max daysSinceDeployment 1;
          normalizedTransfers = normalized transferCount 10 days;
          normalizedHolders = normalized uniqueHolders 5 days;
          normalizedSocial = normalized socialMentions 3 days;
          score = fmul (fadd (fadd (fmul normalizedTransfers transferWeight)
                                   (fmul normalizedHolders holderWeight))
                             (fmul normalizedSocial socialWeight)) 100
      in Math_round score)"

definition weighted :: "rat \<Rightarrow> rat \<Rightarrow> rat \<Rightarrow> rat" where
  \<comment> \<open>The \<open>score\<close> of \<open>calculateEngagementScore\<close> before \<open>Math.round\<close>, as a
     function of the three normalised terms.\<close>
  "weighted nT nH nS =
     fmul (fadd (fadd (fmul nT (binary64 0.4)) (fmul nH (binary64 0.3)))
                (fmul nS (binary64 0.3))) 100"


datatype recommendation = Keep | Sunset | Promote

definition thresholdRecommendation :: "int \<Rightarrow> recommendation \<times> bool" where
  \<comment> \<open>The \<open>if\<close> chain of \<open>analyzeEngagement\<close>: recommendation and \<open>isPerforming\<close>.\<close>
  "thresholdRecommendation engagementScore =
     (if engagementScore \<ge> 50 then (Promote, True)
      else if engagementScore \<ge> 20 then (Keep, True)
      else (Sunset, False))"

definition graceOverride :: "rat \<Rightarrow> recommendation \<Rightarrow> recommendation" where
  \<comment> \<open>"Don't sunset contracts less than 24 hours old"\<close>
  "graceOverride daysSinceDeployment r =
     (if daysSinceDeployment < 1 \<and> r = Sunset then Keep else r)"

definition daysSince :: "int \<Rightarrow> int \<Rightarrow> rat" where
  \<comment> \<open>\<open>(Date.now() - deployment.timestamp) / (1000 * 60 * 60 * 24)\<close>\<close>
  "daysSince now ts = fdiv (fsub (of_int now) (of_int ts)) (1000 * 60 * 60 * 24)"

section \<open>Deployment ledger (memory/deployments.ts)\<close>

datatype status = Active | SunsetStatus

record engagement_cache =
  transactions :: nat
  uniqueUsers :: nat
  lastActivity :: int

text \<open>
  The optional fields of the source interface are \<open>option\<close>s (\<open>None\<close> for an absent
  field). The field \<open>type\<close> is \<open>deploymentType\<close> here, and the values of
  \<open>metadata\<close>, which no function below reads, are kept as strings.
\<close>

record DeploymentRecord =
  name :: string
  symbol :: "string option"
  address :: string
  transactionHash :: "string option"
  txHash :: "string option"
  explorerUrl :: "string option"
  txExplorerUrl :: "string option"
  chainId :: string
  timestamp :: int
  reason :: string
  status :: "status option"
  deploymentType :: "string option"
  metadata :: "(string \<times> string) list option"
  engagement :: "engagement_cache option"
  sunset :: "bool option"

record DeploymentMemory =
  version :: nat
  lastUpdated :: int
  deployments :: "DeploymentRecord list"

text \<open>
  \<open>JSON.parse\<close> accepts texts that are no ledger. The values kept here are those on
  which \<open>memory.deployments\<close> is no array: \<open>null\<close>, where the property access itself
  throws; a boolean, a number, a string, an array and the empty object, where it gives
  \<open>undefined\<close> and the first use of the array (\<open>.length\<close>, \<open>[0]\<close>, \<open>.filter\<close>, \<open>.findIndex\<close>,
  \<open>.unshift\<close>, \<open>for ... of\<close>) throws. Either way the caller dies with a \<open>TypeError\<close>.
\<close>

datatype json =
    JNull | JBool bool | JNumber int | JString string | JArray "json list" | JEmptyObject

text \<open>
  The backing file \<open>memory/deployments.json\<close>: absent; present but not readable;
  present with a text that \<open>JSON.parse\<close> rejects; present with a text that parses to a
  value that is no ledger; or holding the serialisation of a ledger (what
  \<open>saveMemory\<close> writes; \<open>JSON.parse\<close> gives the ledger back).
\<close>

datatype store = Missing | Unreadable | Malformed | Foreign json | Stored DeploymentMemory

text \<open>
  What \<open>loadMemory\<close> returns at run time. Its declared type is \<open>DeploymentMemory\<close>, but
  the cast \<open>as DeploymentMemory\<close> checks nothing.
\<close>

datatype loaded = Ledger DeploymentMemory | NotLedger json

datatype error =
    ReadError | SyntaxError | TypeError | UnsupportedChain | InsufficientBalance
  | NoContractAddress | TxError

definition existsSync :: "store \<Rightarrow> bool" where
  "existsSync st = (st \<noteq> Missing)"

fun readAndParse :: "store \<Rightarrow> error + loaded" where
  \<comment> \<open>The body of the \<open>try\<close> block: \<open>readFileSync\<close>, then \<open>JSON.parse\<close>.\<close>
  "readAndParse Missing = Inl ReadError"
| "readAndParse Unreadable = Inl ReadError"
| "readAndParse Malformed = Inl SyntaxError"
| "readAndParse (Foreign v) = Inr (NotLedger v)"
| "readAndParse (Stored m) = Inr (Ledger m)"

definition emptyMemory :: "int \<Rightarrow> DeploymentMemory" where
  "emptyMemory now = \<lparr> version = 1, lastUpdated = now, deployments = [] \<rparr>"

definition loadMemory :: "int \<Rightarrow> store \<Rightarrow> loaded" where
  "loadMemory now st =
     (if \<not> existsSync st then Ledger (emptyMemory now)
      else case readAndParse st of
             Inr v \<Rightarrow> v
           | Inl e \<Rightarrow> Ledger (emptyMemory now))"

definition saveMemory :: "int \<Rightarrow> DeploymentMemory \<Rightarrow> store" where
  "saveMemory now memory = Stored (memory\<lparr> lastUpdated := now \<rparr>)"

definition saveDeployment :: "int \<Rightarrow> store \<Rightarrow> DeploymentRecord \<Rightarrow> error + store" where
  "saveDeployment now st deployment =
     (case loadMemory now st of
        NotLedger v \<Rightarrow> Inl TypeError
      | Ledger memory \<Rightarrow>
          Inr (saveMemory now (memory\<lparr> deployments := deployment # deployments memory \<rparr>)))"

definition truthy :: "bool option \<Rightarrow> bool" where
  \<comment> \<open>Truthiness of the optional flag \<open>d.sunset\<close>: \<open>undefined\<close> is falsy.\<close>
  "truthy b = (b = Some True)"

definition getActiveDeployments :: "int \<Rightarrow> store \<Rightarrow> error + DeploymentRecord list" where
  "getActiveDeployments now st =
     (case loadMemory now st of
        NotLedger v \<Rightarrow> Inl TypeError
      | Ledger memory \<Rightarrow> Inr (filter (\<lambda>d. \<not> truthy (sunset d)) (deployments memory)))"

definition sunsetDeployment :: "int \<Rightarrow> store \<Rightarrow> string \<Rightarrow> error + store" where
  "sunsetDeployment now st addr =
     (case loadMemory now st of
        NotLedger v \<Rightarrow> Inl TypeError
      | Ledger memory \<Rightarrow>
          (case findIndex (\<lambda>d. address d = addr) (deployments memory) of
             None \<Rightarrow> Inr st
           | Some i \<Rightarrow>
               Inr (saveMemory now (memory\<lparr> deployments :=
                 (deployments memory)[i := (deployments memory ! i)\<lparr> sunset := Some True \<rparr>] \<rparr>))))"

text \<open>
  The result of \<open>getDeploymentStats\<close>; its field \<open>sunset\<close> is \<open>sunsetCount\<close> here.
\<close>

record DeploymentStats =
  total :: nat
  active :: nat
  sunsetCount :: nat
  byChain :: "string \<rightharpoonup> nat"

definition countByChain :: "DeploymentRecord list \<Rightarrow> (string \<rightharpoonup> nat)" where
  \<comment> \<open>\<open>byChain[d.chainId] = (byChain[d.chainId] || 0) + 1\<close> over the records in order.\<close>
  "countByChain ds =
     fold (\<lambda>d m. m(chainId d \<mapsto> (case m (chainId d) of None \<Rightarrow> 0 | Some c \<Rightarrow> c) + 1))
          ds Map.empty"

definition getDeploymentStats :: "int \<Rightarrow> store \<Rightarrow> error + DeploymentStats" where
  "getDeploymentStats now st =
     (case loadMemory now st of
        NotLedger v \<Rightarrow> Inl TypeError
      | Ledger memory \<Rightarrow>
          Inr \<lparr> total = length (deployments memory),
                active = length (filter (\<lambda>d. \<not> truthy (sunset d)) (deployments memory)),
                sunsetCount = length (filter (\<lambda>d. truthy (sunset d)) (deployments memory)),
                byChain = countByChain (deployments memory) \<rparr>)"

section \<open>Engagement analysis of ledger records (engagement/tracker.ts)\<close>

text \<open>
  The fields \<open>address\<close> and \<open>name\<close> of the metrics are \<open>m_address\<close> and
  \<open>m_name\<close> here, apart from those of the ledger record.
\<close>

record EngagementMetrics =
  m_address :: string
  m_name :: string
  transferCount :: nat
  uniqueHolders :: nat
  engagementScore :: int
  isPerforming :: bool
  recommendation :: recommendation
  checkedAt :: int

text \<open>
  \<open>analyzeEngagement\<close> awaits three external counts (transfer logs, distinct receivers,
  casts mentioning the address); they are arguments here, in that order.
\<close>

definition analyzeEngagement ::
  "DeploymentRecord \<Rightarrow> nat \<Rightarrow> nat \<Rightarrow> nat \<Rightarrow> int \<Rightarrow> EngagementMetrics" where
  "analyzeEngagement deployment tc uh socialMentions now =
     (let daysSinceDeployment = daysSince now (timestamp deployment);
          score = calculateEngagementScore (of_nat tc) (of_nat uh)
                    (of_nat socialMentions) daysSinceDeployment;
          (rec0, performing) = thresholdRecommendation score;
          rec1 = graceOverride daysSinceDeployment rec0
      in \<lparr> m_address = address deployment, m_name = name deployment,
           transferCount = tc, uniqueHolders = uh, engagementScore = score,
           isPerforming = performing, recommendation = rec1, checkedAt = now \<rparr>)"

definition analyzeAllDeployments ::
  "int \<Rightarrow> store \<Rightarrow> (string \<Rightarrow> nat \<times> nat \<times> nat) \<Rightarrow> error + EngagementMetrics list"
  where
  "analyzeAllDeployments now st fetch =
     (case loadMemory now st of
        NotLedger v \<Rightarrow> Inl TypeError
      | Ledger memory \<Rightarrow>
          (let activeDeployments = filter (\<lambda>d. status d = Some Active) (deployments memory)
           in Inr (map (\<lambda>deployment.
                          case fetch (address deployment) of
                            (tc, uh, sm) \<Rightarrow> analyzeEngagement deployment tc uh sm now)
                       activeDeployments)))"

section \<open>Contract type selection (daemon/agent.ts)\<close>

datatype ContractType = ERC20 | ERC1155 | Vote | Registry

definition selectContractType :: "string \<Rightarrow> ContractType" where
  "selectContractType narrative =
     (let lowerNarrative = toLowerCase narrative
      in if includes_str lowerNarrative ''vote'' \<or> includes_str lowerNarrative ''decide''
            \<or> includes_str lowerNarrative ''poll'' then Vote
         else if includes_str lowerNarrative ''registry'' \<or> includes_str lowerNarrative ''list''
            \<or> includes_str lowerNarrative ''catalog'' then Registry
         else if includes_str lowerNarrative ''nft'' \<or> includes_str lowerNarrative ''collection''
            \<or> includes_str lowerNarrative ''badge'' then ERC1155
         else ERC20)"

text \<open>
  The selection rule as the specification words it: a keyword matches when some
  contiguous part of the narrative equals it up to letter case, and the first group of
  keywords with a match decides.
\<close>

definition matches_ci :: "string \<Rightarrow> string \<Rightarrow> bool" where
  "matches_ci text keyword =
     (\<exists>before w after. text = before @ w @ after \<and> toLowerCase w = toLowerCase keyword)"

definition archetype_spec :: "string \<Rightarrow> ContractType" where
  "archetype_spec narrative =
     (if matches_ci narrative ''vote'' \<or> matches_ci narrative ''decide''
         \<or> matches_ci narrative ''poll'' then Vote
      else if matches_ci narrative ''registry'' \<or> matches_ci narrative ''list''
         \<or> matches_ci narrative ''catalog'' then Registry
      else if matches_ci narrative ''nft'' \<or> matches_ci narrative ''collection''
         \<or> matches_ci narrative ''badge'' then ERC1155
      else ERC20)"


section \<open>Gate checker (signals/detector.ts)\<close>

text \<open>
  \<open>canDeploy\<close> reads the wallet balance (in wei) and the clock; both are arguments.
  The field \<open>reason\<close> of its result is \<open>gate_reason\<close> here. The wallet is the one of
  \<open>wallet/wallet.ts\<close>, whose \<open>createWallet\<close> is synchronous.
\<close>

record DeployGate =
  allowed :: bool
  gate_reason :: string

definition parseEther_min_deploy :: nat where
  \<comment> \<open>\<open>parseEther('0.005')\<close>, in wei\<close>
  "parseEther_min_deploy = 5 * 10 ^ 15"

definition hasSufficientBalance :: "nat \<Rightarrow> nat \<Rightarrow> bool" where
  \<comment> \<open>\<open>balance >= required\<close>, both in wei\<close>
  "hasSufficientBalance balance required = (balance \<ge> required)"

definition canDeploy :: "nat \<Rightarrow> int \<Rightarrow> store \<Rightarrow> error + DeployGate" where
  "canDeploy balance now st =
     (let hasFunds = hasSufficientBalance balance parseEther_min_deploy
      in if \<not> hasFunds then
           Inr \<lparr> allowed = False,
                 gate_reason = ''Insufficient wallet balance (need at least 0.005 ETH)'' \<rparr>
         else
           (case loadMemory now st of
              NotLedger v \<Rightarrow> Inl TypeError
            | Ledger memory \<Rightarrow>
                (case deployments memory of
                   [] \<Rightarrow> Inr \<lparr> allowed = True, gate_reason = ''Ready to deploy'' \<rparr>
                 | lastDeployment # rest \<Rightarrow>
                     (let hourAgo = now - 60 * 60 * 1000
                      in if timestamp lastDeployment > hourAgo then
                           (let minutesAgo = (now - timestamp lastDeployment) div 60000
                            in Inr \<lparr> allowed = False,
                                     gate_reason = ''Rate limited: Last deployment was ''
                                       @ string_of_int minutesAgo
                                       @ '' minutes ago (wait 60 min)'' \<rparr>)
                         else Inr \<lparr> allowed = True, gate_reason = ''Ready to deploy'' \<rparr>))))"

section \<open>Social posting (social/farcaster.ts)\<close>

text \<open>
  \<open>postCast\<close> depends on the configured signer and on what the Neynar request does:
  \<open>fetch\<close> throws, the response is not ok (status code and body), the body of an ok
  response cannot be used (\<open>response.json()\<close> or the access to \<open>cast.hash\<close> throws), or
  the cast is posted (its hash). Every one of these is handled inside \<open>postCast\<close>, which
  returns a \<open>CastResult\<close> and throws nothing. The field \<open>error\<close> is \<open>cast_error\<close>.
\<close>

record CastResult =
  success :: bool
  castHash :: "string option"
  cast_error :: "string option"

datatype neynar_response =
    FetchThrows string
  | NotOk nat string
  | BodyUnusable string
  | CastOk string

definition postCast :: "string \<Rightarrow> neynar_response \<Rightarrow> string \<Rightarrow> CastResult" where
  "postCast signerUuid response text =
     (if signerUuid = [] then
        \<lparr> success = False, castHash = None,
          cast_error = Some ''FARCASTER_SIGNER_UUID not configured'' \<rparr>
      else case response of
             CastOk h \<Rightarrow> \<lparr> success = True, castHash = Some h, cast_error = None \<rparr>
           | NotOk code body \<Rightarrow>
               \<lparr> success = False, castHash = None,
                 cast_error = Some (''Neynar API error: '' @ string_of_nat code @ '' - '' @ body) \<rparr>
           | FetchThrows msg \<Rightarrow> \<lparr> success = False, castHash = None, cast_error = Some msg \<rparr>
           | BodyUnusable msg \<Rightarrow> \<lparr> success = False, castHash = None, cast_error = Some msg \<rparr>)"

definition sunsetText :: "string \<Rightarrow> string \<Rightarrow> string" where
  "sunsetText tokenName why =
     [CHR 0xF0, CHR 0x9F, CHR 0x8C, CHR 0x85] @ '' Sunsetting '' @ [CHR 0x22] @ tokenName
       @ [CHR 0x22] @ '' on Base'' @ [CHR 0x0A, CHR 0x0A]
       @ [CHR 0xF0, CHR 0x9F, CHR 0x93, CHR 0x89] @ '' Reason: '' @ why @ [CHR 0x0A, CHR 0x0A]
       @ ''Learning and iterating...'' @ [CHR 0x0A, CHR 0x0A] @ ''#Moltchain #AI''"

definition announceSunset ::
  "string \<Rightarrow> neynar_response \<Rightarrow> string \<Rightarrow> string \<Rightarrow> string \<Rightarrow> error + CastResult" where
  "announceSunset signerUuid response tokenName chain why =
     Inr (postCast signerUuid response (sunsetText tokenName why))"


section \<open>Sunset processor (sunset/automation.ts)\<close>

text \<open>
  \<open>processSunset\<close> returns the new file, the effects it performed in order, and its
  \<open>SunsetResult\<close> (fields \<open>address\<close>, \<open>name\<close>, \<open>reason\<close> with the prefix \<open>r_\<close>).
  The \<open>try\<close>/\<open>catch\<close> around \<open>announceSunset\<close> is the case distinction on its
  outcome: \<open>Inl\<close> is a rejected promise.
\<close>

record SunsetResult =
  r_address :: string
  r_name :: string
  r_reason :: string
  sunsetAt :: int
  announced :: bool

datatype effect = WriteFile DeploymentMemory | AnnounceCall string

definition sunsetReason :: "EngagementMetrics \<Rightarrow> string" where
  "sunsetReason metrics =
     ''Low engagement: '' @ string_of_nat (transferCount metrics) @ '' transfers, ''
       @ string_of_nat (uniqueHolders metrics) @ '' holders, score: ''
       @ string_of_int (engagementScore metrics) @ ''/100''"

definition markSunset :: "string \<Rightarrow> DeploymentMemory \<Rightarrow> nat \<Rightarrow> DeploymentMemory" where
  "markSunset why memory i =
     memory\<lparr> deployments :=
       (deployments memory)[i := (deployments memory ! i)\<lparr> status := Some SunsetStatus,
                                                              reason := why \<rparr>] \<rparr>"

definition processSunset ::
  "int \<Rightarrow> store \<Rightarrow> string \<Rightarrow> neynar_response \<Rightarrow> DeploymentRecord \<Rightarrow> EngagementMetrics
     \<Rightarrow> error + store \<times> effect list \<times> SunsetResult" where
  "processSunset now st signerUuid response deployment metrics =
     (let why = sunsetReason metrics
      in case loadMemory now st of
           NotLedger v \<Rightarrow> Inl TypeError
         | Ledger memory \<Rightarrow>
             (let deploymentIndex =
                    findIndex (\<lambda>d. address d = address deployment) (deployments memory);
                  (st1, log1) =
                    (case deploymentIndex of
                       None \<Rightarrow> (st, [])
                     | Some i \<Rightarrow>
                         (saveMemory now (markSunset why memory i),
                          [WriteFile ((markSunset why memory i)\<lparr> lastUpdated := now \<rparr>)]));
                  outcome = announceSunset signerUuid response (name deployment) ''base'' why;
                  wasAnnounced = (case outcome of Inr r \<Rightarrow> True | Inl e \<Rightarrow> False)
              in Inr (st1,
                      log1 @ [AnnounceCall (sunsetText (name deployment) why)],
                      \<lparr> r_address = address deployment, r_name = name deployment,
                        r_reason = why, sunsetAt = now, announced = wasAnnounced \<rparr>)))"

text \<open>The result of \<open>getSunsetStats\<close>; its field \<open>total\<close> is \<open>s_total\<close> here.\<close>

record SunsetStats =
  s_total :: nat
  thisWeek :: nat
  thisMonth :: nat

definition getSunsetStats :: "int \<Rightarrow> store \<Rightarrow> error + SunsetStats" where
  "getSunsetStats now st =
     (case loadMemory now st of
        NotLedger v \<Rightarrow> Inl TypeError
      | Ledger memory \<Rightarrow>
          (let sunsetDeployments =
                 filter (\<lambda>d. status d = Some SunsetStatus) (deployments memory);
               weekAgo = now - 7 * 24 * 60 * 60 * 1000;
               monthAgo = now - 30 * 24 * 60 * 60 * 1000
           in Inr \<lparr> s_total = length sunsetDeployments,
                    thisWeek = length (filter (\<lambda>d. timestamp d > weekAgo) sunsetDeployments),
                    thisMonth = length (filter (\<lambda>d. timestamp d > monthAgo) sunsetDeployments) \<rparr>))"

section \<open>Deployer (deployer/deployer.ts)\<close>

text \<open>
  \<open>deployContract\<close> reads the wallet balance and sends the deployment transaction:
  sending or waiting throws, or the transaction is mined with a hash and a receipt that
  may carry the contract address. The ABI and the constructor arguments only pass through
  to the chain and are left out of the configuration.
\<close>

record DeployConfig =
  cfg_name :: string
  cfg_chainId :: string
  bytecode :: string
  cfg_reason :: "string option"

record DeployResult =
  res_address :: string
  res_transactionHash :: string
  res_explorerUrl :: string
  res_txExplorerUrl :: string
  res_chainId :: string
  res_timestamp :: int

datatype tx_outcome = SendThrows | Mined string "string option"

definition getChain :: "string \<Rightarrow> error + string" where
  \<comment> \<open>The explorer URL of the chain, or the error thrown for an unsupported one.\<close>
  "getChain cid = (if cid = ''base'' then Inr ''https://basescan.org'' else Inl UnsupportedChain)"

definition deployContract ::
  "int \<Rightarrow> store \<Rightarrow> nat \<Rightarrow> DeployConfig \<Rightarrow> tx_outcome \<Rightarrow> store \<times> (error + DeployResult)" where
  "deployContract now st balance config tx =
     (case getChain (cfg_chainId config) of
        Inl e \<Rightarrow> (st, Inl e)
      | Inr explorer \<Rightarrow>
          \<comment> \<open>\<open>wallet.hasSufficientBalance('0.00001')\<close>: \<open>10^13\<close> wei\<close>
          if \<not> hasSufficientBalance balance (10 ^ 13) then (st, Inl InsufficientBalance)
          else case tx of
                 SendThrows \<Rightarrow> (st, Inl TxError)
               | Mined hash None \<Rightarrow> (st, Inl NoContractAddress)
               | Mined hash (Some contractAddress) \<Rightarrow>
                   if contractAddress = [] then (st, Inl NoContractAddress)
                   else
                     (let result =
                            \<lparr> res_address = contractAddress,
                              res_transactionHash = hash,
                              res_explorerUrl = explorer @ ''/address/'' @ contractAddress,
                              res_txExplorerUrl = explorer @ ''/tx/'' @ hash,
                              res_chainId = cfg_chainId config,
                              res_timestamp = now \<rparr>;
                          deploymentRecord =
                            \<lparr> name = cfg_name config, symbol = None,
                              address = res_address result,
                              transactionHash = Some (res_transactionHash result),
                              txHash = None,
                              explorerUrl = Some (res_explorerUrl result),
                              txExplorerUrl = Some (res_txExplorerUrl result),
                              chainId = res_chainId result,
                              timestamp = res_timestamp result,
                              reason = (case cfg_reason config of
                                          None \<Rightarrow> ''Manual deployment''
                                        | Some r \<Rightarrow> if r = [] then ''Manual deployment'' else r),
                              status = None, deploymentType = None, metadata = None,
                              engagement = None, sunset = None \<rparr>
                      in case saveDeployment now st deploymentRecord of
                           Inl e \<Rightarrow> (st, Inl e)
                         | Inr st1 \<Rightarrow> (st1, Inr result)))"


section \<open>Ledger states the operations can produce\<close>

text \<open>
  The ledger files that arise from an absent file by deployments, by the sunset processor
  and by \<open>sunsetDeployment\<close>.
\<close>

inductive reachable :: "store \<Rightarrow> bool" where
  start: "reachable Missing"
| deploy: "reachable st \<Longrightarrow> reachable (fst (deployContract now st balance config tx))"
| sunset_step:
    "reachable st \<Longrightarrow>
     processSunset now st signerUuid response deployment metrics = Inr (st1, trace, res) \<Longrightarrow>
     reachable st1"
| legacy_sunset:
    "reachable st \<Longrightarrow> sunsetDeployment now st addr = Inr st1 \<Longrightarrow> reachable st1"

definition ledger_records :: "store \<Rightarrow> DeploymentRecord list" where
  \<comment> \<open>The records a load of the file shows; none when the file holds no ledger.\<close>
  "ledger_records st =
     (case loadMemory 0 st of Ledger memory \<Rightarrow> deployments memory | NotLedger v \<Rightarrow> [])"

definition never_active :: "store \<Rightarrow> bool" where
  "never_active st =
     ((\<forall>v. st \<noteq> Foreign v)
      \<and> (\<forall>d \<in> set (ledger_records st). status d \<noteq> Some Active))"

section \<open>Sample inputs\<close>

definition deployed_record :: "string \<Rightarrow> string \<Rightarrow> int \<Rightarrow> DeploymentRecord" where
  \<comment> \<open>The record \<open>deployContract\<close> writes for a contract at this address, mined in this
     transaction at this time, when the configuration is \<open>sample_config\<close> below.\<close>
  "deployed_record addr hash ts =
     \<lparr> name = ''Moltchain Contract'', symbol = None, address = addr,
       transactionHash = Some hash, txHash = None,
       explorerUrl = Some (''https://basescan.org/address/'' @ addr),
       txExplorerUrl = Some (''https://basescan.org/tx/'' @ hash),
       chainId = ''base'', timestamp = ts, reason = ''Manual deployment'',
       status = None, deploymentType = None, metadata = None, engagement = None,
       sunset = None \<rparr>"

definition fresh_record :: "int \<Rightarrow> DeploymentRecord" where
  "fresh_record ts = deployed_record ''0xabc'' ''0x01'' ts"

definition sample_config :: DeployConfig where
  "sample_config =
     \<lparr> cfg_name = ''Moltchain Contract'', cfg_chainId = ''base'', bytecode = ''0x6080'',
       cfg_reason = None \<rparr>"

definition sample_ledger :: "DeploymentRecord list \<Rightarrow> store" where
  "sample_ledger ds = Stored \<lparr> version = 1, lastUpdated = 0, deployments = ds \<rparr>"

definition st_one :: store where
  \<comment> \<open>The ledger after one successful deployment into an absent file.\<close>
  "st_one = fst (deployContract 1000 Missing (10 ^ 14) sample_config
                   (Mined ''0x01'' (Some ''0xabc'')))"

definition st_two :: store where
  \<comment> \<open>... and after a second deployment.\<close>
  "st_two = fst (deployContract 2000 st_one (10 ^ 14) sample_config
                   (Mined ''0x02'' (Some ''0xdef'')))"

definition sample_fetch :: "string \<Rightarrow> nat \<times> nat \<times> nat" where
  "sample_fetch addr = (100, 50, 30)"

definition sample_metrics :: EngagementMetrics where
  \<comment> \<open>The first contract four days on: no transfers, no holders, two mentions.\<close>
  "sample_metrics = analyzeEngagement (fresh_record 1000) 0 0 2 345601000"

definition st_sunset :: store where
  \<comment> \<open>... after the sunset processor has retired the first contract.\<close>
  "st_sunset =
     (case processSunset 345601000 st_two ''signer-uuid'' (CastOk ''0xcafe'')
             (fresh_record 1000) sample_metrics of
        Inr (st1, trace, res) \<Rightarrow> st1
      | Inl e \<Rightarrow> st_two)"

definition st_mixed :: store where
  \<comment> \<open>... and after \<open>sunsetDeployment\<close> has flagged the second one.\<close>
  "st_mixed =
     (case sunsetDeployment 345602000 st_sunset ''0xdef'' of
        Inr st1 \<Rightarrow> st1
      | Inl e \<Rightarrow> st_sunset)"

section \<open>Properties of the rounding to binary64\<close>

lemma expo_bounds:
  assumes "0 < x"
  shows "2 powi expo x \<le> x \<and> x < 2 powi (expo x + 1)"
proof -
  obtain p q where pq: "quotient_of x = (p, q)" by (cases "quotient_of x") auto
  have q: "0 < q" using quotient_of_denom_pos [OF pq] .
  have x: "x = of_int p / of_int q" using quotient_of_div [OF pq] .
  have p: "0 < p" using assms q x by (simp add: zero_less_divide_iff)
  define bp where "bp = bitlen p"
  define bq where "bq = bitlen q"
  have bp1: "1 \<le> bp" and bq1: "1 \<le> bq"
    using p q by (simp_all add: bp_def bq_def bitlen_alt_def)
  have pb: "(2::int) ^ nat (bp - 1) \<le> p" "p < 2 ^ nat bp"
    using bitlen_bounds [OF p] by (simp_all add: bp_def)
  have qb: "(2::int) ^ nat (bq - 1) \<le> q" "q < 2 ^ nat bq"
    using bitlen_bounds [OF q] by (simp_all add: bq_def)
  have pr: "(2::rat) powi (bp - 1) \<le> of_int p" "of_int p < (2::rat) powi bp"
  proof -
    have "(of_int ((2::int) ^ nat (bp - 1)) :: rat) \<le> of_int p" using pb(1) by (simp only: of_int_le_iff)
    then show "(2::rat) powi (bp - 1) \<le> of_int p" using bp1 by (simp add: power_int_nonneg_exp)
    have "(of_int p :: rat) < of_int ((2::int) ^ nat bp)" using pb(2) by (simp only: of_int_less_iff)
    then show "of_int p < (2::rat) powi bp" using bp1 by (simp add: power_int_nonneg_exp)
  qed
  have qr: "(2::rat) powi (bq - 1) \<le> of_int q" "of_int q < (2::rat) powi bq"
  proof -
    have "(of_int ((2::int) ^ nat (bq - 1)) :: rat) \<le> of_int q" using qb(1) by (simp only: of_int_le_iff)
    then show "(2::rat) powi (bq - 1) \<le> of_int q" using bq1 by (simp add: power_int_nonneg_exp)
    have "(of_int q :: rat) < of_int ((2::int) ^ nat bq)" using qb(2) by (simp only: of_int_less_iff)
    then show "of_int q < (2::rat) powi bq" using bq1 by (simp add: power_int_nonneg_exp)
  qed
  have qpos: "(0::rat) < of_int q" using q by simp
  define k where "k = bp - bq"
  have up: "x < 2 powi (k + 1)"
  proof -
    have "of_int p < (2::rat) powi bp" by (rule pr(2))
    also have "\<dots> = 2 powi (k + 1) * 2 powi (bq - 1)"
      by (simp add: k_def power_int_add [symmetric])
    also have "\<dots> \<le> 2 powi (k + 1) * of_int q"
      using qr(1) by (simp add: mult_left_mono)
    finally show ?thesis using qpos by (simp add: x pos_divide_less_eq)
  qed
  have lo: "2 powi (k - 1) \<le> x"
  proof -
    have "2 powi (k - 1) * of_int q \<le> 2 powi (k - 1) * (2::rat) powi bq"
      using qr(2) by (simp add: mult_left_mono)
    also have "\<dots> = 2 powi (bp - 1)"
      by (simp add: k_def power_int_add [symmetric])
    also have "\<dots> \<le> of_int p" by (rule pr(1))
    finally show ?thesis using qpos by (simp add: x pos_le_divide_eq)
  qed
  have e: "expo x = (if 2 powi k \<le> x then k else k - 1)"
    using assms pq by (simp add: expo_def k_def bp_def bq_def Let_def)
  show ?thesis
  proof (cases "2 powi k \<le> x")
    case True
    then show ?thesis using e up by simp
  next
    case False
    then show ?thesis using e lo by simp
  qed
qed

lemma expo_mono:
  assumes "0 < x" "x \<le> y"
  shows "expo x \<le> expo y"
proof (rule ccontr)
  assume "\<not> expo x \<le> expo y"
  then have "expo y + 1 \<le> expo x" by simp
  then have "(2::rat) powi (expo y + 1) \<le> 2 powi expo x"
    by (intro power_int_increasing) simp_all
  also have "\<dots> \<le> x" using expo_bounds [OF assms(1)] by simp
  also have "\<dots> \<le> y" by (rule assms(2))
  also have "\<dots> < 2 powi (expo y + 1)" using expo_bounds [of y] assms by simp
  finally show False by simp
qed

lemma round_half_even_cases:
  "round_half_even q = \<lfloor>q\<rfloor> \<and> q - of_int \<lfloor>q\<rfloor> \<le> 1 / 2
   \<or> round_half_even q = \<lfloor>q\<rfloor> + 1 \<and> 1 / 2 \<le> q - of_int \<lfloor>q\<rfloor>"
  unfolding round_half_even_def Let_def by (simp split: if_splits)

lemma round_half_even_bounds:
  "of_int (round_half_even q) - 1 / 2 \<le> q \<and> q \<le> of_int (round_half_even q) + 1 / 2"
proof -
  have f: "of_int \<lfloor>q\<rfloor> \<le> q" "q < of_int \<lfloor>q\<rfloor> + 1" by linarith+
  from round_half_even_cases [of q] show ?thesis
  proof
    assume a: "round_half_even q = \<lfloor>q\<rfloor> \<and> q - of_int \<lfloor>q\<rfloor> \<le> 1 / 2"
    then have "(of_int (round_half_even q) :: rat) = of_int \<lfloor>q\<rfloor>" by simp
    then show ?thesis using f a by linarith
  next
    assume a: "round_half_even q = \<lfloor>q\<rfloor> + 1 \<and> 1 / 2 \<le> q - of_int \<lfloor>q\<rfloor>"
    then have "(of_int (round_half_even q) :: rat) = of_int \<lfloor>q\<rfloor> + 1" by simp
    then show ?thesis using f a by linarith
  qed
qed

lemma round_half_even_of_int [simp]: "round_half_even (of_int n) = n"
  by (simp add: round_half_even_def)

lemma round_half_even_mono:
  assumes "p \<le> q"
  shows "round_half_even p \<le> round_half_even q"
proof (cases "\<lfloor>p\<rfloor> = \<lfloor>q\<rfloor>")
  case True
  have "q - of_int \<lfloor>q\<rfloor> < 1 / 2 \<Longrightarrow> p - of_int \<lfloor>q\<rfloor> < 1 / 2" using assms by linarith
  moreover have "1 / 2 < p - of_int \<lfloor>q\<rfloor> \<Longrightarrow> 1 / 2 < q - of_int \<lfloor>q\<rfloor>" using assms by linarith
  ultimately show ?thesis
    unfolding round_half_even_def Let_def True by (simp split: if_splits)
next
  case False
  then have lt: "\<lfloor>p\<rfloor> + 1 \<le> \<lfloor>q\<rfloor>" using floor_mono [OF assms] by linarith
  have "round_half_even p \<le> \<lfloor>p\<rfloor> + 1" using round_half_even_cases [of p] by auto
  moreover have "\<lfloor>q\<rfloor> \<le> round_half_even q" using round_half_even_cases [of q] by auto
  ultimately show ?thesis using lt by linarith
qed

lemma binary64_pos_range:
  assumes "0 < x"
  shows "2 powi expo x \<le> binary64_pos x \<and> binary64_pos x \<le> 2 powi (expo x + 1)"
proof -
  define ulp :: rat where "ulp = 2 powi (expo x - 52)"
  have u: "0 < ulp" by (simp add: ulp_def)
  have lo: "2 powi expo x = of_int (2 ^ 52) * ulp"
    by (simp add: ulp_def power_int_diff)
  have hi: "2 powi (expo x + 1) = of_int (2 ^ 53) * ulp"
    by (simp add: ulp_def power_int_diff power_int_add)
  have "of_int (2 ^ 52) \<le> x / ulp" "x / ulp \<le> of_int (2 ^ 53)"
    using expo_bounds [OF assms] u unfolding lo hi by (simp_all add: pos_le_divide_eq pos_divide_le_eq)
  then have "round_half_even (of_int (2 ^ 52)) \<le> round_half_even (x / ulp)"
    "round_half_even (x / ulp) \<le> round_half_even (of_int (2 ^ 53))"
    by (simp_all only: round_half_even_mono)
  then have "(2 ^ 52 :: int) \<le> round_half_even (x / ulp)" "round_half_even (x / ulp) \<le> 2 ^ 53"
    unfolding round_half_even_of_int by simp_all
  then have "(of_int (2 ^ 52) :: rat) \<le> of_int (round_half_even (x / ulp))"
    "(of_int (round_half_even (x / ulp)) :: rat) \<le> of_int (2 ^ 53)"
    by (simp_all only: of_int_le_iff)
  then have "of_int (2 ^ 52) * ulp \<le> of_int (round_half_even (x / ulp)) * ulp"
    "of_int (round_half_even (x / ulp)) * ulp \<le> of_int (2 ^ 53) * ulp"
    using u by (simp_all only: mult_le_cancel_right_pos)
  then show ?thesis unfolding lo hi binary64_pos_def Let_def ulp_def by blast
qed

lemma binary64_pos_mono:
  assumes "0 < x" "x \<le> y"
  shows "binary64_pos x \<le> binary64_pos y"
proof (cases "expo x = expo y")
  case True
  define ulp :: rat where "ulp = 2 powi (expo y - 52)"
  have u: "0 < ulp" by (simp add: ulp_def)
  have "x / ulp \<le> y / ulp" using assms u by (simp add: divide_right_mono)
  then have "round_half_even (x / ulp) \<le> round_half_even (y / ulp)" by (rule round_half_even_mono)
  then have "(of_int (round_half_even (x / ulp)) :: rat) \<le> of_int (round_half_even (y / ulp))"
    by (simp only: of_int_le_iff)
  then have "of_int (round_half_even (x / ulp)) * ulp \<le> of_int (round_half_even (y / ulp)) * ulp"
    using u by (simp only: mult_le_cancel_right_pos)
  then show ?thesis unfolding binary64_pos_def Let_def True ulp_def .
next
  case False
  then have "expo x + 1 \<le> expo y" using expo_mono [OF assms] by simp
  then have "(2::rat) powi (expo x + 1) \<le> 2 powi expo y"
    by (intro power_int_increasing) simp_all
  moreover have "binary64_pos x \<le> 2 powi (expo x + 1)" using binary64_pos_range [OF assms(1)] by simp
  moreover have "2 powi expo y \<le> binary64_pos y" using binary64_pos_range [of y] assms by simp
  ultimately show ?thesis by linarith
qed

lemma binary64_pos_positive: "0 < x \<Longrightarrow> 0 < binary64_pos x"
  using binary64_pos_range [of x] zero_less_power_int [of "2::rat" "expo x"] by linarith

lemma binary64_mono:
  assumes "x \<le> y"
  shows "binary64 x \<le> binary64 y"
proof -
  consider "0 < x" | "x \<le> 0" "0 \<le> y" | "y < 0" using assms by linarith
  then show ?thesis
  proof cases
    case 1
    then show ?thesis using assms binary64_pos_mono [of x y] by (simp add: binary64_def)
  next
    case 2
    have "binary64 x \<le> 0"
    proof (cases "x = 0")
      case True
      then show ?thesis by (simp add: binary64_def)
    next
      case False
      then have "0 < - x" using 2(1) by simp
      then have "0 < binary64_pos (- x)" by (rule binary64_pos_positive)
      then show ?thesis using False 2(1) by (simp add: binary64_def)
    qed
    moreover have "0 \<le> binary64 y"
    proof (cases "y = 0")
      case True
      then show ?thesis by (simp add: binary64_def)
    next
      case False
      then have "0 < y" using 2(2) by simp
      then have "0 < binary64_pos y" by (rule binary64_pos_positive)
      then show ?thesis using \<open>0 < y\<close> by (simp add: binary64_def)
    qed
    ultimately show ?thesis by linarith
  next
    case 3
    then have "x < 0" using assms by linarith
    then show ?thesis using 3 assms binary64_pos_mono [of "- y" "- x"] by (simp add: binary64_def)
  qed
qed

lemma binary64_error:
  "\<bar>binary64 x - x\<bar> \<le> \<bar>x\<bar> / 2 ^ 53"
proof -
  have pos: "\<bar>binary64_pos z - z\<bar> \<le> z / 2 ^ 53" if z: "0 < z" for z
  proof -
    define ulp :: rat where "ulp = 2 powi (expo z - 52)"
    have u: "0 < ulp" by (simp add: ulp_def)
    define n where "n = round_half_even (z / ulp)"
    have "of_int n - 1 / 2 \<le> z / ulp" "z / ulp \<le> of_int n + 1 / 2"
      using round_half_even_bounds [of "z / ulp"] by (simp_all add: n_def)
    then have "(of_int n - 1 / 2) * ulp \<le> z" "z \<le> (of_int n + 1 / 2) * ulp"
      using u by (simp_all add: pos_le_divide_eq pos_divide_le_eq)
    then have "of_int n * ulp - ulp / 2 \<le> z" "z \<le> of_int n * ulp + ulp / 2"
      by (simp_all add: left_diff_distrib distrib_right)
    then have "\<bar>of_int n * ulp - z\<bar> \<le> ulp / 2" by linarith
    moreover have "ulp / 2 \<le> z / 2 ^ 53"
    proof -
      have "2 powi expo z = 2 ^ 52 * ulp" by (simp add: ulp_def power_int_diff)
      then have "2 ^ 52 * ulp \<le> z" using expo_bounds [OF z] by simp
      then show ?thesis by (simp add: field_simps)
    qed
    ultimately show ?thesis unfolding binary64_pos_def Let_def n_def ulp_def by linarith
  qed
  consider "x = 0" | "0 < x" | "x < 0" by linarith
  then show ?thesis
  proof cases
    case 1 then show ?thesis by (simp add: binary64_def)
  next
    case 2 then show ?thesis using pos [of x] by (simp add: binary64_def)
  next
    case 3
    then have "\<bar>binary64_pos (- x) - (- x)\<bar> \<le> (- x) / 2 ^ 53" using pos [of "- x"] by simp
    then show ?thesis using 3 by (simp add: binary64_def abs_if split: if_splits)
  qed
qed

section \<open>Properties of the scorer\<close>

lemma score_weighted:
  "calculateEngagementScore tc uh sm d =
     Math_round (weighted (normalized tc 10 (max d 1)) (normalized uh 5 (max d 1))
                          (normalized sm 3 (max d 1)))"
  by (simp add: calculateEngagementScore_def weighted_def Let_def)

lemma binary64_0 [simp]: "binary64 0 = 0"
  by (simp add: binary64_def)
lemma binary64_1 [simp]: "binary64 1 = 1"
  by code_simp
lemma binary64_100: "binary64 100 = 100"
  by code_simp

lemma w4: "binary64 0.4 = 3602879701896397 / 9007199254740992"
  by code_simp
lemma w3: "binary64 0.3 = 5404319552844595 / 18014398509481984"
  by code_simp

lemma Math_round_mono: "x \<le> y \<Longrightarrow> Math_round x \<le> Math_round y"
  by (simp add: Math_round_def floor_mono)

lemma Math_round_of_int: "Math_round (of_int n) = n"
  unfolding Math_round_def by (rule floor_unique) simp_all

lemma weighted_mono:
  assumes "a \<le> a'" "b \<le> b'" "c \<le> c'"
  shows "weighted a b c \<le> weighted a' b' c'"
proof -
  have 1: "fmul a (binary64 0.4) \<le> fmul a' (binary64 0.4)"
    unfolding fmul_def w4 using assms(1) by (intro binary64_mono) simp
  have 2: "fmul b (binary64 0.3) \<le> fmul b' (binary64 0.3)"
    unfolding fmul_def w3 using assms(2) by (intro binary64_mono) simp
  have 3: "fmul c (binary64 0.3) \<le> fmul c' (binary64 0.3)"
    unfolding fmul_def w3 using assms(3) by (intro binary64_mono) simp
  have 4: "fadd (fmul a (binary64 0.4)) (fmul b (binary64 0.3))
      \<le> fadd (fmul a' (binary64 0.4)) (fmul b' (binary64 0.3))"
    unfolding fadd_def using 1 2 by (intro binary64_mono) simp
  have 5: "fadd (fadd (fmul a (binary64 0.4)) (fmul b (binary64 0.3))) (fmul c (binary64 0.3))
      \<le> fadd (fadd (fmul a' (binary64 0.4)) (fmul b' (binary64 0.3))) (fmul c' (binary64 0.3))"
    unfolding fadd_def [of "fadd _ _"] using 4 3 by (intro binary64_mono) simp
  show ?thesis
    unfolding weighted_def fmul_def [of "fadd _ _"] using 5 by (intro binary64_mono) simp
qed

lemma weighted_0: "weighted 0 0 0 = 0"
  by (simp add: weighted_def fmul_def fadd_def)

lemma weighted_1: "weighted 1 1 1 = 100"
  by code_simp

lemma weighted_near_1: "Math_round (weighted (1 - 1 / 2 ^ 53) (1 - 1 / 2 ^ 53) (1 - 1 / 2 ^ 53)) = 100"
  by code_simp

lemma fmul_pos:
  assumes "0 < e" "1 \<le> days"
  shows "0 < fmul e days"
proof -
  define P where "P = e * days"
  have P: "0 < P" using assms by (simp add: P_def)
  then have "0 < binary64_pos P" by (rule binary64_pos_positive)
  then have "0 < binary64 P" using P by (simp add: binary64_def)
  then show ?thesis by (simp add: fmul_def P_def)
qed

lemma normalized_mono:
  assumes "a \<le> a'" "0 < e" "1 \<le> days"
  shows "normalized a e days \<le> normalized a' e days"
proof -
  have "a / fmul e days \<le> a' / fmul e days"
    using assms(1) fmul_pos [OF assms(2,3)] by (simp add: divide_right_mono)
  then have "fdiv a (fmul e days) \<le> fdiv a' (fmul e days)"
    unfolding fdiv_def by (rule binary64_mono)
  then show ?thesis by (simp add: normalized_def min_le_iff_disj)
qed

lemma normalized_le_1: "normalized c e days \<le> 1"
  by (simp add: normalized_def)

lemma normalized_nonneg:
  assumes "0 \<le> c" "0 < e" "1 \<le> days"
  shows "0 \<le> normalized c e days"
proof -
  have "0 \<le> c / fmul e days" using assms(1) fmul_pos [OF assms(2,3)] by simp
  then have "binary64 0 \<le> fdiv c (fmul e days)" unfolding fdiv_def by (rule binary64_mono)
  then show ?thesis by (simp add: normalized_def)
qed

lemma normalized_0: "0 < e \<Longrightarrow> 1 \<le> days \<Longrightarrow> normalized 0 e days = 0"
  by (simp add: normalized_def fdiv_def)

lemma normalized_near_1:
  assumes "e * days \<le> c" "0 < e" "1 \<le> days"
  shows "1 - 1 / 2 ^ 53 \<le> normalized c e days"
proof -
  define P where "P = e * days"
  define D where "D = fmul e days"
  have P: "0 < P" using assms by (simp add: P_def)
  have D: "0 < D" unfolding D_def by (rule fmul_pos [OF assms(2,3)])
  have "\<bar>D - P\<bar> \<le> \<bar>P\<bar> / 2 ^ 53" unfolding D_def P_def fmul_def by (rule binary64_error)
  then have "D \<le> P + P / 2 ^ 53" using P by linarith
  also have "\<dots> \<le> c + c / 2 ^ 53"
  proof -
    have "P \<le> c" unfolding P_def by (rule assms(1))
    then show ?thesis by (simp add: divide_right_mono add_mono)
  qed
  finally have "D \<le> c * (1 + 1 / 2 ^ 53)" by (simp add: algebra_simps)
  then have "D * (1 - 1 / 2 ^ 53) \<le> c * ((1 + 1 / 2 ^ 53) * (1 - 1 / 2 ^ 53))"
    by (simp add: mult_right_mono mult.assoc)
  also have "\<dots> \<le> c * 1"
  proof -
    have "P \<le> c" unfolding P_def by (rule assms(1))
    then have "0 \<le> c" using P by linarith
    then show ?thesis by (intro mult_left_mono) simp_all
  qed
  finally have "(1 - 1 / 2 ^ 53) \<le> c / D" using D by (simp add: pos_le_divide_eq mult.commute)
  then have "binary64 (1 - 1 / 2 ^ 53) \<le> fdiv c D" unfolding fdiv_def by (rule binary64_mono)
  moreover have "binary64 (1 - 1 / 2 ^ 53) = 1 - 1 / 2 ^ 53" by code_simp
  ultimately show ?thesis by (simp add: normalized_def D_def)
qed

lemma score_bounds:
  assumes "0 \<le> tc" "0 \<le> uh" "0 \<le> sm"
  shows "0 \<le> calculateEngagementScore tc uh sm d \<and> calculateEngagementScore tc uh sm d \<le> 100"
proof -
  have d: "1 \<le> max d 1" by simp
  have lo: "weighted 0 0 0 \<le> weighted (normalized tc 10 (max d 1)) (normalized uh 5 (max d 1))
                          (normalized sm 3 (max d 1))"
    using assms d by (intro weighted_mono normalized_nonneg) simp_all
  have hi: "weighted (normalized tc 10 (max d 1)) (normalized uh 5 (max d 1))
                          (normalized sm 3 (max d 1)) \<le> weighted 1 1 1"
    by (intro weighted_mono normalized_le_1)
  have "Math_round 0 \<le> calculateEngagementScore tc uh sm d"
    "calculateEngagementScore tc uh sm d \<le> Math_round 100"
    unfolding score_weighted using lo hi
    by (simp_all add: weighted_0 weighted_1 Math_round_mono)
  then show ?thesis using Math_round_of_int [of 0] Math_round_of_int [of 100] by simp
qed

lemma score_zero: "calculateEngagementScore 0 0 0 d = 0"
  using Math_round_of_int [of 0]
  by (simp add: score_weighted normalized_0 weighted_0)

lemma score_cap:
  assumes "10 * max d 1 \<le> tc" "5 * max d 1 \<le> uh" "3 * max d 1 \<le> sm"
  shows "calculateEngagementScore tc uh sm d = 100"
proof -
  have d: "1 \<le> max d 1" by simp
  have lo: "weighted (1 - 1 / 2 ^ 53) (1 - 1 / 2 ^ 53) (1 - 1 / 2 ^ 53)
      \<le> weighted (normalized tc 10 (max d 1)) (normalized uh 5 (max d 1))
                          (normalized sm 3 (max d 1))"
    using assms d by (intro weighted_mono normalized_near_1) simp_all
  have hi: "weighted (normalized tc 10 (max d 1)) (normalized uh 5 (max d 1))
                          (normalized sm 3 (max d 1)) \<le> weighted 1 1 1"
    by (intro weighted_mono normalized_le_1)
  have "100 \<le> calculateEngagementScore tc uh sm d"
    unfolding score_weighted using Math_round_mono [OF lo] unfolding weighted_near_1 .
  moreover have "calculateEngagementScore tc uh sm d \<le> 100"
    unfolding score_weighted using Math_round_mono [OF hi] Math_round_of_int [of 100]
    by (simp add: weighted_1)
  ultimately show ?thesis by simp
qed

lemma score_mono_transfers:
  assumes "a \<le> a'"
  shows "calculateEngagementScore a uh sm d \<le> calculateEngagementScore a' uh sm d"
  unfolding score_weighted using assms
  by (intro Math_round_mono weighted_mono normalized_mono) simp_all

lemma score_mono_holders:
  assumes "a \<le> a'"
  shows "calculateEngagementScore tc a sm d \<le> calculateEngagementScore tc a' sm d"
  unfolding score_weighted using assms
  by (intro Math_round_mono weighted_mono normalized_mono) simp_all

lemma score_mono_mentions:
  assumes "a \<le> a'"
  shows "calculateEngagementScore tc uh a d \<le> calculateEngagementScore tc uh a' d"
  unfolding score_weighted using assms
  by (intro Math_round_mono weighted_mono normalized_mono) simp_all









text \<open>
  Claim C2. A record younger than one day is never recommended for sunset, whatever the
  three counts are: when the threshold rule gives sunset and the age is below one day,
  the recommendation returned is keep.
\<close>

theorem grace_period_never_sunset:
  assumes "daysSince now (timestamp dep) < 1"
  shows "recommendation (analyzeEngagement dep tc uh sm now) \<noteq> Sunset
     \<and> (fst (thresholdRecommendation (engagementScore (analyzeEngagement dep tc uh sm now)))
          = Sunset
        \<longrightarrow> recommendation (analyzeEngagement dep tc uh sm now) = Keep)"
  using assms
  by (simp add: analyzeEngagement_def Let_def graceOverride_def split: prod.splits)

theorem grace_period_never_sunset_witness:
  "daysSince 3600000 (timestamp (fresh_record 0)) < 1
   \<and> fst (thresholdRecommendation
           (engagementScore (analyzeEngagement (fresh_record 0) 0 0 0 3600000))) = Sunset
   \<and> recommendation (analyzeEngagement (fresh_record 0) 0 0 0 3600000) = Keep"
proof -
  have ts: "timestamp (fresh_record 0) = 0"
    by (simp add: fresh_record_def deployed_record_def)
  have "daysSince 3600000 0 < 1" by code_simp
  then have h: "daysSince 3600000 (timestamp (fresh_record 0)) < 1" unfolding ts .
  have s: "engagementScore (analyzeEngagement (fresh_record 0) 0 0 0 3600000) = 0"
    by (simp add: analyzeEngagement_def Let_def score_zero split: prod.splits)
  have t: "fst (thresholdRecommendation 0) = Sunset"
    by (simp add: thresholdRecommendation_def)
  show ?thesis
    using h grace_period_never_sunset [OF h, of 0 0 0] by (simp add: s t)
qed

text \<open>
  Claim C7. With the other three inputs fixed, raising one of the raw counts (transfers,
  holders or mentions) never lowers the engagement score.
\<close>

theorem score_monotone_in_each_count:
  assumes "a \<le> a'"
  shows "calculateEngagementScore a uh sm d \<le> calculateEngagementScore a' uh sm d
     \<and> calculateEngagementScore tc a sm d \<le> calculateEngagementScore tc a' sm d
     \<and> calculateEngagementScore tc uh a d \<le> calculateEngagementScore tc uh a' d"
  using assms score_mono_transfers score_mono_holders score_mono_mentions by blast

theorem score_monotone_in_each_count_witness:
  "(3::rat) \<le> 7
   \<and> calculateEngagementScore 3 1 1 2 \<le> calculateEngagementScore 7 1 1 2
   \<and> calculateEngagementScore 4 3 1 2 \<le> calculateEngagementScore 4 7 1 2
   \<and> calculateEngagementScore 4 1 3 2 \<le> calculateEngagementScore 4 1 7 2"
proof -
  have h: "(3::rat) \<le> 7" by simp
  show ?thesis
    using h score_monotone_in_each_count [OF h, where tc = 4 and uh = 1 and sm = 1 and d = 2]
    by simp
qed

text \<open>
  Claim C8. For non-negative counts and any age the score is an integer from 0 to 100;
  with no activity it is 0; each normalised term is at most 1, and once every count has
  reached its expected rate times the age in days the score is exactly 100.
\<close>

theorem score_total_and_bounded:
  "(0 \<le> tc \<and> 0 \<le> uh \<and> 0 \<le> sm \<longrightarrow>
      0 \<le> calculateEngagementScore tc uh sm d \<and> calculateEngagementScore tc uh sm d \<le> 100)
   \<and> calculateEngagementScore 0 0 0 d = 0
   \<and> normalized c e (max d 1) \<le> 1
   \<and> (10 * max d 1 \<le> tc \<and> 5 * max d 1 \<le> uh \<and> 3 * max d 1 \<le> sm \<longrightarrow>
      calculateEngagementScore tc uh sm d = 100)"
  using score_bounds [of tc uh sm d] score_zero [of d] normalized_le_1 [of c e "max d 1"]
    score_cap [of d tc uh sm]
  by blast

theorem score_total_and_bounded_witness:
  "0 \<le> calculateEngagementScore 1000 500 300 7
   \<and> calculateEngagementScore 1000 500 300 7 = 100
   \<and> calculateEngagementScore 0 0 0 7 = 0"
  using score_total_and_bounded [where tc = 1000 and uh = 500 and sm = 300 and d = 7]
  by simp

section \<open>Properties of contract type selection\<close>

lemma includes_str_iff: "includes_str s t \<longleftrightarrow> (\<exists>ps ss. s = ps @ t @ ss)"
proof (induction s)
  case Nil
  then show ?case by auto
next
  case (Cons c cs)
  show ?case
  proof
    assume "includes_str (c # cs) t"
    then consider "prefix t (c # cs)" | "includes_str cs t" by auto
    then show "\<exists>ps ss. c # cs = ps @ t @ ss"
    proof cases
      case 1
      then obtain ss where "c # cs = t @ ss" by (auto simp: prefix_def)
      then have "c # cs = [] @ t @ ss" by simp
      then show ?thesis by blast
    next
      case 2
      then obtain ps ss where "cs = ps @ t @ ss" using Cons.IH by auto
      then have "c # cs = (c # ps) @ t @ ss" by simp
      then show ?thesis by blast
    qed
  next
    assume "\<exists>ps ss. c # cs = ps @ t @ ss"
    then obtain ps ss where e: "c # cs = ps @ t @ ss" by blast
    show "includes_str (c # cs) t"
    proof (cases ps)
      case Nil
      then have "prefix t (c # cs)" using e by (simp add: prefix_def)
      then show ?thesis by simp
    next
      case (Cons p ps')
      then have "cs = ps' @ t @ ss" using e by simp
      then have "includes_str cs t" using Cons.IH by blast
      then show ?thesis by simp
    qed
  qed
qed

lemma map_eq_appendE:
  "map f xs = ys @ zs \<Longrightarrow> \<exists>us vs. xs = us @ vs \<and> map f us = ys \<and> map f vs = zs"
  by (metis map_eq_append_conv)

lemma includes_lower_iff:
  assumes "toLowerCase k = k"
  shows "includes_str (toLowerCase n) k \<longleftrightarrow> matches_ci n k"
proof
  assume "includes_str (toLowerCase n) k"
  then obtain ps ss where e: "map toLowerChar n = ps @ k @ ss"
    by (auto simp: includes_str_iff toLowerCase_def)
  then obtain a r where n1: "n = a @ r" and r: "map toLowerChar r = k @ ss"
    using map_eq_appendE by blast
  from r obtain w b where "r = w @ b" "map toLowerChar w = k"
    using map_eq_appendE by blast
  then show "matches_ci n k" using n1 assms by (auto simp: matches_ci_def toLowerCase_def)
next
  assume "matches_ci n k"
  then obtain a w b where "n = a @ w @ b" "toLowerCase w = k"
    using assms by (auto simp: matches_ci_def)
  then have "toLowerCase n = toLowerCase a @ k @ toLowerCase b"
    by (auto simp: toLowerCase_def)
  then show "includes_str (toLowerCase n) k" unfolding includes_str_iff by blast
qed

lemma select_eq_spec: "selectContractType n = archetype_spec n"
proof -
  have k: "toLowerCase ''vote'' = ''vote''" "toLowerCase ''decide'' = ''decide''"
    "toLowerCase ''poll'' = ''poll''" "toLowerCase ''registry'' = ''registry''"
    "toLowerCase ''list'' = ''list''" "toLowerCase ''catalog'' = ''catalog''"
    "toLowerCase ''nft'' = ''nft''" "toLowerCase ''collection'' = ''collection''"
    "toLowerCase ''badge'' = ''badge''"
    by (simp_all add: toLowerCase_def toLowerChar_def)
  show ?thesis
    unfolding selectContractType_def archetype_spec_def Let_def
    by (simp only: k [THEN includes_lower_iff])
qed

text \<open>
  Claim C4. Contract type selection is a total, deterministic function of the narrative:
  it agrees with the priority rule of the specification (a case-insensitive occurrence of
  vote, decide or poll gives the vote contract; otherwise registry, list or catalog gives
  the registry; otherwise nft, collection or badge gives ERC-1155; otherwise ERC-20), and
  the four narratives the specification lists get the contract types it lists.
\<close>

theorem selectContractType_priority:
  "selectContractType narrative = archetype_spec narrative
   \<and> selectContractType (''Let'' @ [CHR 0x27] @ ''s vote on this'') = Vote
   \<and> selectContractType ''new NFT collection'' = ERC1155
   \<and> selectContractType ''community registry list'' = Registry
   \<and> selectContractType ''moon rocket meme'' = ERC20"
proof -
  have "selectContractType (''Let'' @ [CHR 0x27] @ ''s vote on this'') = Vote" by code_simp
  moreover have "selectContractType ''new NFT collection'' = ERC1155" by code_simp
  moreover have "selectContractType ''community registry list'' = Registry" by code_simp
  moreover have "selectContractType ''moon rocket meme'' = ERC20" by code_simp
  ultimately show ?thesis using select_eq_spec by blast
qed

theorem selectContractType_priority_witness:
  "archetype_spec ''POLL: best Badge catalog'' = Vote
   \<and> archetype_spec ''a Catalog of badges'' = Registry
   \<and> archetype_spec ''Badge drop'' = ERC1155"
proof -
  have "selectContractType ''POLL: best Badge catalog'' = Vote" by code_simp
  moreover have "selectContractType ''a Catalog of badges'' = Registry" by code_simp
  moreover have "selectContractType ''Badge drop'' = ERC1155" by code_simp
  ultimately show ?thesis
    using selectContractType_priority [of "''POLL: best Badge catalog''"]
      selectContractType_priority [of "''a Catalog of badges''"]
      selectContractType_priority [of "''Badge drop''"]
    by simp
qed

section \<open>Properties of the ledger and the gate\<close>

lemma loadMemory_cases:
  "loadMemory now st =
     (case readAndParse st of Inr v \<Rightarrow> v | Inl e \<Rightarrow> Ledger (emptyMemory now))"
  by (cases st) (simp_all add: loadMemory_def existsSync_def)

lemma loadMemory_Stored [simp]: "loadMemory now (Stored m) = Ledger m"
  by (simp add: loadMemory_def existsSync_def)

lemma loadMemory_Foreign [simp]: "loadMemory now (Foreign v) = NotLedger v"
  by (simp add: loadMemory_def existsSync_def)

lemma loadMemory_Missing [simp]: "loadMemory now Missing = Ledger (emptyMemory now)"
  by (simp add: loadMemory_def existsSync_def)

lemma loadMemory_records:
  assumes "loadMemory now st = Ledger m"
  shows "deployments m = ledger_records st" and "\<forall>v. st \<noteq> Foreign v"
  using assms
  by (cases st; simp add: ledger_records_def loadMemory_def existsSync_def emptyMemory_def; fastforce)+

lemma loadMemory_not_foreign:
  assumes "\<forall>v. st \<noteq> Foreign v"
  shows "\<exists>m. loadMemory now st = Ledger m \<and> deployments m = ledger_records st"
  using assms
  by (cases st) (simp_all add: ledger_records_def loadMemory_def existsSync_def emptyMemory_def)

lemma findIndex_Some:
  "findIndex p xs = Some i \<Longrightarrow> i < length xs \<and> p (xs ! i)"
proof (induction xs arbitrary: i)
  case Nil
  then show ?case by simp
next
  case (Cons x xs)
  show ?case
  proof (cases "p x")
    case True
    then show ?thesis using Cons.prems by simp
  next
    case False
    then obtain j where "findIndex p xs = Some j" "i = Suc j"
      using Cons.prems by auto
    then show ?thesis using Cons.IH by simp
  qed
qed

lemma findIndex_first:
  "findIndex p xs = Some i \<Longrightarrow> j < i \<Longrightarrow> \<not> p (xs ! j)"
proof (induction xs arbitrary: i j)
  case Nil
  then show ?case by simp
next
  case (Cons x xs)
  show ?case
  proof (cases "p x")
    case True
    then show ?thesis using Cons.prems by simp
  next
    case False
    then obtain k where k: "findIndex p xs = Some k" "i = Suc k"
      using Cons.prems by auto
    show ?thesis
    proof (cases j)
      case 0
      then show ?thesis using False by simp
    next
      case (Suc j')
      then show ?thesis using Cons.IH [OF k(1), of j'] Cons.prems k by simp
    qed
  qed
qed

lemma findIndex_None: "findIndex p xs = None \<longleftrightarrow> (\<forall>x\<in>set xs. \<not> p x)"
  by (induction xs) auto


text \<open>
  Claim C3. \<open>canDeploy\<close> checks the balance first and the rate limit second. Below
  0.005 ETH it refuses with the insufficient-balance reason, whatever the ledger holds.
  With enough balance and a newest record younger than 60 minutes it refuses and reports
  the whole minutes elapsed; for a newest record 30 minutes old the reason contains
  "30 minutes". With enough balance it allows the deployment when the newest record is
  60 minutes old or older (90 minutes in particular) or the ledger is empty.
\<close>

theorem canDeploy_checks_in_order:
  "(balance < parseEther_min_deploy \<longrightarrow>
      canDeploy balance now st =
        Inr \<lparr> allowed = False,
              gate_reason = ''Insufficient wallet balance (need at least 0.005 ETH)'' \<rparr>)
   \<and> (parseEther_min_deploy \<le> balance \<and> loadMemory now st = Ledger m
        \<and> deployments m = r # rs \<and> now - 60 * 60000 < timestamp r \<longrightarrow>
      canDeploy balance now st =
        Inr \<lparr> allowed = False,
              gate_reason = ''Rate limited: Last deployment was ''
                @ string_of_int ((now - timestamp r) div 60000)
                @ '' minutes ago (wait 60 min)'' \<rparr>)
   \<and> (parseEther_min_deploy \<le> balance \<and> loadMemory now st = Ledger m
        \<and> deployments m = r # rs \<and> timestamp r = now - 30 * 60000 \<longrightarrow>
      (\<exists>g. canDeploy balance now st = Inr g \<and> \<not> allowed g
           \<and> includes_str (gate_reason g) ''30 minutes''))
   \<and> (parseEther_min_deploy \<le> balance \<and> loadMemory now st = Ledger m
        \<and> deployments m = r # rs \<and> timestamp r \<le> now - 60 * 60000 \<longrightarrow>
      canDeploy balance now st = Inr \<lparr> allowed = True, gate_reason = ''Ready to deploy'' \<rparr>)
   \<and> (parseEther_min_deploy \<le> balance \<and> loadMemory now st = Ledger m
        \<and> deployments m = r # rs \<and> timestamp r = now - 90 * 60000 \<longrightarrow>
      (\<exists>g. canDeploy balance now st = Inr g \<and> allowed g))
   \<and> (parseEther_min_deploy \<le> balance \<and> loadMemory now st = Ledger m
        \<and> deployments m = [] \<longrightarrow>
      canDeploy balance now st = Inr \<lparr> allowed = True, gate_reason = ''Ready to deploy'' \<rparr>)"
proof -
  have thirty: "string_of_int 30 = ''30''"
    by code_simp
  have inc: "includes_str ''Rate limited: Last deployment was 30 minutes ago (wait 60 min)''
       ''30 minutes''"
    by code_simp
  have d: "(30 * 60000) div 60000 = (30::int)"
    by simp
  show ?thesis
    by (auto simp add: canDeploy_def hasSufficientBalance_def Let_def thirty inc d
          simp del: includes_str.simps)
qed

theorem canDeploy_checks_in_order_witness:
  "canDeploy (4 * 10 ^ 15) 10000000 (sample_ledger [fresh_record 9999000])
     = Inr \<lparr> allowed = False,
             gate_reason = ''Insufficient wallet balance (need at least 0.005 ETH)'' \<rparr>
   \<and> canDeploy (5 * 10 ^ 15) 10000000 (sample_ledger [fresh_record 8200000, fresh_record 0])
     = Inr \<lparr> allowed = False,
             gate_reason = ''Rate limited: Last deployment was 30 minutes ago (wait 60 min)'' \<rparr>
   \<and> canDeploy (5 * 10 ^ 15) 10000000 (sample_ledger [fresh_record 4600000])
     = Inr \<lparr> allowed = True, gate_reason = ''Ready to deploy'' \<rparr>
   \<and> canDeploy (5 * 10 ^ 15) 10000000 Missing
     = Inr \<lparr> allowed = True, gate_reason = ''Ready to deploy'' \<rparr>"
proof -
  have b: "(4 * 10 ^ 15 :: nat) < parseEther_min_deploy" "parseEther_min_deploy \<le> 5 * 10 ^ 15"
    by (simp_all add: parseEther_min_deploy_def)
  have s: "string_of_int ((10000000 - 8200000) div 60000) = ''30''"
    by code_simp
  have l: "loadMemory 10000000 (sample_ledger ds)
      = Ledger \<lparr> version = 1, lastUpdated = 0, deployments = ds \<rparr>"
    "loadMemory 10000000 Missing
      = Ledger \<lparr> version = 1, lastUpdated = 10000000, deployments = [] \<rparr>" for ds
    by (simp_all add: sample_ledger_def emptyMemory_def)
  have t: "timestamp (fresh_record ts) = ts" for ts
    by (simp add: fresh_record_def deployed_record_def)
  show ?thesis
    using b s
      canDeploy_checks_in_order [of "4 * 10 ^ 15" 10000000 "sample_ledger [fresh_record 9999000]"]
      canDeploy_checks_in_order [of "5 * 10 ^ 15" 10000000
        "sample_ledger [fresh_record 8200000, fresh_record 0]"
        "\<lparr> version = 1, lastUpdated = 0,
           deployments = [fresh_record 8200000, fresh_record 0] \<rparr>"
        "fresh_record 8200000" "[fresh_record 0]"]
      canDeploy_checks_in_order [of "5 * 10 ^ 15" 10000000
        "sample_ledger [fresh_record 4600000]"
        "\<lparr> version = 1, lastUpdated = 0, deployments = [fresh_record 4600000] \<rparr>"
        "fresh_record 4600000" "[]"]
      canDeploy_checks_in_order [of "5 * 10 ^ 15" 10000000 Missing
        "\<lparr> version = 1, lastUpdated = 10000000, deployments = [] \<rparr>"]
    by (simp add: l t emptyMemory_def)
qed

text \<open>
  Claim C9, as amended. When the backing file is absent, cannot be read, or holds text that
  \<open>JSON.parse\<close> rejects, \<open>loadMemory\<close> returns the empty ledger (version 1, no
  records); every error of reading and parsing is absorbed, so \<open>loadMemory\<close> itself
  never fails, whatever the file holds. Text that parses is returned as it was parsed,
  with no check that it is a ledger.
\<close>

theorem loadMemory_tolerates_missing_or_unparseable:
  "(st = Missing \<or> st = Unreadable \<or> st = Malformed \<longrightarrow>
      loadMemory now st = Ledger \<lparr> version = 1, lastUpdated = now, deployments = [] \<rparr>)
   \<and> (readAndParse st = Inl e \<longrightarrow>
      loadMemory now st = Ledger \<lparr> version = 1, lastUpdated = now, deployments = [] \<rparr>)
   \<and> loadMemory now st =
       (case readAndParse st of Inr v \<Rightarrow> v | Inl e \<Rightarrow> Ledger (emptyMemory now))
   \<and> (st = Stored m \<longrightarrow> loadMemory now st = Ledger m)
   \<and> (st = Foreign v \<longrightarrow> loadMemory now st = NotLedger v)"
  by (cases st) (simp_all add: loadMemory_def existsSync_def emptyMemory_def)

theorem loadMemory_tolerates_missing_or_unparseable_witness:
  "loadMemory 5 Missing = Ledger \<lparr> version = 1, lastUpdated = 5, deployments = [] \<rparr>
   \<and> loadMemory 5 Unreadable = Ledger \<lparr> version = 1, lastUpdated = 5, deployments = [] \<rparr>
   \<and> loadMemory 5 Malformed = Ledger \<lparr> version = 1, lastUpdated = 5, deployments = [] \<rparr>
   \<and> loadMemory 5 (Foreign JNull) = NotLedger JNull"
  using loadMemory_tolerates_missing_or_unparseable [of Missing 5]
    loadMemory_tolerates_missing_or_unparseable [of Unreadable 5]
    loadMemory_tolerates_missing_or_unparseable [of Malformed 5]
    loadMemory_tolerates_missing_or_unparseable [of "Foreign JNull" 5 _ _ JNull]
  by simp

theorem loadMemory_parsed_non_ledger_counterexample:
  "loadMemory 5 (Foreign JEmptyObject) = NotLedger JEmptyObject
   \<and> loadMemory 5 (Foreign JEmptyObject)
       \<noteq> Ledger \<lparr> version = 1, lastUpdated = 5, deployments = [] \<rparr>
   \<and> loadMemory 5 (Foreign JNull) = NotLedger JNull
   \<and> canDeploy (5 * 10 ^ 15) 5 (Foreign JEmptyObject) = Inl TypeError
   \<and> getDeploymentStats 5 (Foreign JNull) = Inl TypeError"
  by (simp add: canDeploy_def getDeploymentStats_def hasSufficientBalance_def
        parseEther_min_deploy_def)


lemma ledger_records_Stored [simp]: "ledger_records (Stored m) = deployments m"
  by (simp add: ledger_records_def)

lemma ledger_records_Missing [simp]: "ledger_records Missing = []"
  by (simp add: ledger_records_def emptyMemory_def)

lemma deployContract_sample:
  assumes "addr \<noteq> []" "10 ^ 13 \<le> balance" "loadMemory now st = Ledger mem"
  shows "deployContract now st balance sample_config (Mined hash (Some addr)) =
     (Stored \<lparr> version = version mem, lastUpdated = now,
               deployments = deployed_record addr hash now # deployments mem \<rparr>,
      Inr \<lparr> res_address = addr, res_transactionHash = hash,
            res_explorerUrl = ''https://basescan.org/address/'' @ addr,
            res_txExplorerUrl = ''https://basescan.org/tx/'' @ hash,
            res_chainId = ''base'', res_timestamp = now \<rparr>)"
  using assms
  by (simp add: deployContract_def getChain_def sample_config_def hasSufficientBalance_def
        saveDeployment_def saveMemory_def deployed_record_def Let_def)

lemma st_one_eval:
  "st_one = Stored \<lparr> version = 1, lastUpdated = 1000, deployments = [fresh_record 1000] \<rparr>"
proof -
  have "loadMemory 1000 Missing = Ledger \<lparr> version = 1, lastUpdated = 1000, deployments = [] \<rparr>"
    by (simp add: emptyMemory_def)
  then show ?thesis
    by (simp add: st_one_def deployContract_sample [where mem = "\<lparr> version = 1,
          lastUpdated = 1000, deployments = [] \<rparr>"] fresh_record_def)
qed

lemma st_two_eval:
  "st_two = Stored \<lparr> version = 1, lastUpdated = 2000,
     deployments = [deployed_record ''0xdef'' ''0x02'' 2000, fresh_record 1000] \<rparr>"
  by (simp add: st_two_def st_one_eval deployContract_sample [where mem = "\<lparr> version = 1,
        lastUpdated = 1000, deployments = [fresh_record 1000] \<rparr>"])

text \<open>
  Claim C5. The claim says that the record the iteration loop creates after a successful
  deployment is among those \<open>analyzeAllDeployments\<close> selects at the next engagement check.
  The code at the failing input: \<open>deployContract\<close> succeeds on an absent ledger and writes
  its record without a \<open>status\<close>; \<open>getActiveDeployments\<close> lists that record, and
  \<open>analyzeAllDeployments\<close>, which keeps the records whose status equals active, selects
  nothing.
\<close>

theorem fresh_deployment_not_analyzed:
  "snd (deployContract 1000 Missing (10 ^ 14) sample_config (Mined ''0x01'' (Some ''0xabc'')))
     = Inr \<lparr> res_address = ''0xabc'', res_transactionHash = ''0x01'',
             res_explorerUrl = ''https://basescan.org/address/0xabc'',
             res_txExplorerUrl = ''https://basescan.org/tx/0x01'',
             res_chainId = ''base'', res_timestamp = 1000 \<rparr>
   \<and> (\<exists>m. loadMemory 2000 st_one = Ledger m
          \<and> map address (deployments m) = [''0xabc'']
          \<and> map status (deployments m) = [None])
   \<and> (\<exists>ds. getActiveDeployments 2000 st_one = Inr ds \<and> map address ds = [''0xabc''])
   \<and> analyzeAllDeployments 2000 st_one sample_fetch = Inr []"
proof -
  have "loadMemory 1000 Missing = Ledger \<lparr> version = 1, lastUpdated = 1000, deployments = [] \<rparr>"
    by (simp add: emptyMemory_def)
  then have "snd (deployContract 1000 Missing (10 ^ 14) sample_config
                   (Mined ''0x01'' (Some ''0xabc'')))
     = Inr \<lparr> res_address = ''0xabc'', res_transactionHash = ''0x01'',
             res_explorerUrl = ''https://basescan.org/address/0xabc'',
             res_txExplorerUrl = ''https://basescan.org/tx/0x01'',
             res_chainId = ''base'', res_timestamp = 1000 \<rparr>"
    by (simp add: deployContract_sample [where mem = "\<lparr> version = 1,
          lastUpdated = 1000, deployments = [] \<rparr>"])
  then show ?thesis
    by (simp add: st_one_eval getActiveDeployments_def analyzeAllDeployments_def truthy_def
          fresh_record_def deployed_record_def Let_def)
qed

lemma never_active_update:
  assumes "\<forall>d \<in> set ds. status d \<noteq> Some Active" "status r \<noteq> Some Active"
  shows "\<forall>d \<in> set (ds[i := r]). status d \<noteq> Some Active"
  using assms by (metis insertE set_update_subset_insert subsetD)

lemma never_active_deploy:
  assumes "never_active st"
  shows "never_active (fst (deployContract now st balance config tx))"
proof -
  obtain m where m: "loadMemory now st = Ledger m" "deployments m = ledger_records st"
    using assms loadMemory_not_foreign [of st now] by (auto simp: never_active_def)
  have ds: "\<forall>d \<in> set (deployments m). status d \<noteq> Some Active"
    using assms m(2) by (simp add: never_active_def)
  show ?thesis
  proof (cases "getChain (cfg_chainId config)")
    case (Inl e)
    then show ?thesis using assms by (simp add: deployContract_def)
  next
    case (Inr explorer)
    show ?thesis
      using assms ds Inr m(1)
      by (auto simp add: deployContract_def never_active_def saveDeployment_def saveMemory_def
            Let_def split: tx_outcome.splits option.splits)
  qed
qed

lemma processSunset_Ledger:
  assumes "loadMemory now st = Ledger mem"
  shows "processSunset now st signerUuid response dep m =
     Inr ((case findIndex (\<lambda>d. address d = address dep) (deployments mem) of
             None \<Rightarrow> st
           | Some i \<Rightarrow> Stored ((markSunset (sunsetReason m) mem i)\<lparr> lastUpdated := now \<rparr>)),
          (case findIndex (\<lambda>d. address d = address dep) (deployments mem) of
             None \<Rightarrow> []
           | Some i \<Rightarrow> [WriteFile ((markSunset (sunsetReason m) mem i)\<lparr> lastUpdated := now \<rparr>)])
          @ [AnnounceCall (sunsetText (name dep) (sunsetReason m))],
          \<lparr> r_address = address dep, r_name = name dep, r_reason = sunsetReason m,
            sunsetAt = now, announced = True \<rparr>)"
  using assms
  by (simp add: processSunset_def announceSunset_def saveMemory_def Let_def
        split: prod.splits option.splits)

lemma processSunset_Inr_Ledger:
  assumes "processSunset now st signerUuid response dep m = Inr x"
  shows "\<exists>mem. loadMemory now st = Ledger mem"
  using assms by (cases "loadMemory now st") (simp_all add: processSunset_def Let_def)

lemma never_active_processSunset:
  assumes "never_active st"
    and "processSunset now st signerUuid response deployment metrics = Inr (st1, trace, res)"
  shows "never_active st1"
proof -
  obtain m where m: "loadMemory now st = Ledger m" "deployments m = ledger_records st"
    using assms(1) loadMemory_not_foreign [of st now] by (auto simp: never_active_def)
  have ds: "\<forall>d \<in> set (deployments m). status d \<noteq> Some Active"
    using assms(1) m(2) by (simp add: never_active_def)
  show ?thesis
  proof (cases "findIndex (\<lambda>d. address d = address deployment) (deployments m)")
    case None
    then have "st1 = st" using assms(2) unfolding processSunset_Ledger [OF m(1)] by simp
    then show ?thesis using assms(1) by simp
  next
    case (Some i)
    have "\<forall>d \<in> set ((deployments m)
            [i := (deployments m ! i)\<lparr> status := Some SunsetStatus,
                                        reason := sunsetReason metrics \<rparr>]).
            status d \<noteq> Some Active"
      by (rule never_active_update [OF ds]) simp
    moreover have "st1 = Stored ((markSunset (sunsetReason metrics) m i)\<lparr> lastUpdated := now \<rparr>)"
      using assms(2) Some unfolding processSunset_Ledger [OF m(1)] by simp
    ultimately show ?thesis by (simp add: never_active_def markSunset_def)
  qed
qed

lemma never_active_sunsetDeployment:
  assumes "never_active st" and "sunsetDeployment now st addr = Inr st1"
  shows "never_active st1"
proof -
  obtain m where m: "loadMemory now st = Ledger m" "deployments m = ledger_records st"
    using assms(1) loadMemory_not_foreign [of st now] by (auto simp: never_active_def)
  have ds: "\<forall>d \<in> set (deployments m). status d \<noteq> Some Active"
    using assms(1) m(2) by (simp add: never_active_def)
  show ?thesis
  proof (cases "findIndex (\<lambda>d. address d = addr) (deployments m)")
    case None
    then have "st1 = st" using assms(2) m(1) by (simp add: sunsetDeployment_def)
    then show ?thesis using assms(1) by simp
  next
    case (Some i)
    have i: "i < length (deployments m)"
      using findIndex_Some [OF Some] by simp
    have "status ((deployments m ! i)\<lparr> sunset := Some True \<rparr>) \<noteq> Some Active"
      using ds i by simp
    then have "\<forall>d \<in> set ((deployments m)[i := (deployments m ! i)\<lparr> sunset := Some True \<rparr>]).
            status d \<noteq> Some Active"
      by (rule never_active_update [OF ds])
    moreover have "st1 = Stored (m\<lparr> deployments :=
        (deployments m)[i := (deployments m ! i)\<lparr> sunset := Some True \<rparr>], lastUpdated := now \<rparr>)"
      using assms(2) Some m(1) by (simp add: sunsetDeployment_def saveMemory_def)
    ultimately show ?thesis by (simp add: never_active_def)
  qed
qed

lemma reachable_never_active: "reachable st \<Longrightarrow> never_active st"
proof (induction rule: reachable.induct)
  case start
  then show ?case by (simp add: never_active_def)
next
  case (deploy st now balance config tx)
  then show ?case by (simp add: never_active_deploy)
next
  case (sunset_step st now signerUuid response deployment metrics st1 trace res)
  then show ?case using never_active_processSunset by blast
next
  case (legacy_sunset st now addr st1)
  then show ?case using never_active_sunsetDeployment by blast
qed

lemma reachable_nothing_analyzed:
  assumes "reachable st"
  shows "analyzeAllDeployments now st fetch = Inr []"
proof -
  have na: "never_active st" using reachable_never_active [OF assms] .
  obtain m where m: "loadMemory now st = Ledger m" "deployments m = ledger_records st"
    using na loadMemory_not_foreign [of st now] by (auto simp: never_active_def)
  have "\<forall>d \<in> set (deployments m). status d \<noteq> Some Active"
    using na m(2) by (simp add: never_active_def)
  then have "filter (\<lambda>d. status d = Some Active) (deployments m) = []"
    by (simp add: filter_empty_conv)
  then show ?thesis using m(1) by (simp add: analyzeAllDeployments_def Let_def)
qed


lemma sample_metrics_eval:
  "sample_metrics = \<lparr> m_address = ''0xabc'', m_name = ''Moltchain Contract'', transferCount = 0,
     uniqueHolders = 0, engagementScore = 5, isPerforming = False, recommendation = Sunset,
     checkedAt = 345601000 \<rparr>"
  by code_simp

lemma sunsetReason_sample:
  "sunsetReason sample_metrics = ''Low engagement: 0 transfers, 0 holders, score: 5/100''"
  unfolding sample_metrics_eval by code_simp

text \<open>
  Claim C6, as amended. \<open>processSunset\<close> returns the address and name of the record it
  was given, the time of the call, and a reason that embeds the transfer count, the holder
  count and the score. When the ledger holds a record with that address, the first such
  record is set to status sunset with that reason, the ledger is written before
  \<open>announceSunset\<close> is called, and the written ledger is the same whatever the
  announcement does: loading it afterwards shows the record with status sunset.
\<close>

theorem processSunset_persists_then_announces:
  assumes "processSunset now st signerUuid response dep m = Inr (st', trace, res)"
  shows "r_address res = address dep \<and> r_name res = name dep \<and> sunsetAt res = now
     \<and> r_reason res = ''Low engagement: '' @ string_of_nat (transferCount m) @ '' transfers, ''
          @ string_of_nat (uniqueHolders m) @ '' holders, score: ''
          @ string_of_int (engagementScore m) @ ''/100''
     \<and> (\<exists>t r. processSunset now st otherSigner otherResponse dep m = Inr (st', t, r))
     \<and> (loadMemory now st = Ledger mem
          \<and> findIndex (\<lambda>d. address d = address dep) (deployments mem) = Some i \<longrightarrow>
          (\<exists>after. loadMemory later st' = Ledger after
             \<and> length (deployments after) = length (deployments mem)
             \<and> i < length (deployments after)
             \<and> address (deployments after ! i) = address dep
             \<and> status (deployments after ! i) = Some SunsetStatus
             \<and> reason (deployments after ! i) = r_reason res
             \<and> st' = Stored after
             \<and> trace = [WriteFile after,
                         AnnounceCall (sunsetText (name dep) (r_reason res))]))"
proof -
  obtain mem0 where mem0: "loadMemory now st = Ledger mem0"
    using processSunset_Inr_Ledger [OF assms] by blast
  have st': "st' = (case findIndex (\<lambda>d. address d = address dep) (deployments mem0) of
             None \<Rightarrow> st
           | Some i \<Rightarrow> Stored ((markSunset (sunsetReason m) mem0 i)\<lparr> lastUpdated := now \<rparr>))"
    and trace: "trace = (case findIndex (\<lambda>d. address d = address dep) (deployments mem0) of
             None \<Rightarrow> []
           | Some i \<Rightarrow> [WriteFile ((markSunset (sunsetReason m) mem0 i)\<lparr> lastUpdated := now \<rparr>)])
          @ [AnnounceCall (sunsetText (name dep) (sunsetReason m))]"
    and res: "res = \<lparr> r_address = address dep, r_name = name dep, r_reason = sunsetReason m,
            sunsetAt = now, announced = True \<rparr>"
    using assms unfolding processSunset_Ledger [OF mem0] by simp_all
  have r: "r_address res = address dep \<and> r_name res = name dep \<and> sunsetAt res = now
     \<and> r_reason res = sunsetReason m"
    unfolding res by simp
  have indep: "\<exists>t r. processSunset now st otherSigner otherResponse dep m = Inr (st', t, r)"
    unfolding processSunset_Ledger [OF mem0] st' by simp
  have found: "\<exists>after. loadMemory later st' = Ledger after
             \<and> length (deployments after) = length (deployments mem)
             \<and> i < length (deployments after)
             \<and> address (deployments after ! i) = address dep
             \<and> status (deployments after ! i) = Some SunsetStatus
             \<and> reason (deployments after ! i) = r_reason res
             \<and> st' = Stored after
             \<and> trace = [WriteFile after,
                         AnnounceCall (sunsetText (name dep) (r_reason res))]"
    if l: "loadMemory now st = Ledger mem"
      and f: "findIndex (\<lambda>d. address d = address dep) (deployments mem) = Some i"
  proof -
    have eq: "mem0 = mem" using l mem0 by simp
    have i: "i < length (deployments mem)"
      and a: "address (deployments mem ! i) = address dep"
      using findIndex_Some [OF f] by simp_all
    define after where "after = (markSunset (sunsetReason m) mem i)\<lparr> lastUpdated := now \<rparr>"
    have s: "st' = Stored after"
      unfolding st' eq f after_def by simp
    have t: "trace = [WriteFile after, AnnounceCall (sunsetText (name dep) (sunsetReason m))]"
      unfolding trace eq f after_def by simp
    have "loadMemory later st' = Ledger after" unfolding s by simp
    moreover have "length (deployments after) = length (deployments mem)"
      "i < length (deployments after)"
      "address (deployments after ! i) = address dep"
      "status (deployments after ! i) = Some SunsetStatus"
      "reason (deployments after ! i) = r_reason res"
      using i a r by (simp_all add: after_def markSunset_def)
    ultimately show ?thesis using s t r by auto
  qed
  have r2: "r_reason res = ''Low engagement: '' @ string_of_nat (transferCount m) @ '' transfers, ''
          @ string_of_nat (uniqueHolders m) @ '' holders, score: ''
          @ string_of_int (engagementScore m) @ ''/100''"
    using r unfolding sunsetReason_def by blast
  show ?thesis using r r2 indep found by blast
qed

lemma st_sunset_eval:
  "st_sunset = Stored \<lparr> version = 1, lastUpdated = 345601000,
     deployments = [deployed_record ''0xdef'' ''0x02'' 2000,
       (fresh_record 1000)\<lparr> status := Some SunsetStatus,
         reason := ''Low engagement: 0 transfers, 0 holders, score: 5/100'' \<rparr>] \<rparr>"
proof -
  have l: "loadMemory 345601000 st_two = Ledger \<lparr> version = 1, lastUpdated = 2000,
     deployments = [deployed_record ''0xdef'' ''0x02'' 2000, fresh_record 1000] \<rparr>"
    by (simp add: st_two_eval)
  show ?thesis
    unfolding st_sunset_def processSunset_Ledger [OF l]
    by (simp add: fresh_record_def deployed_record_def markSunset_def sunsetReason_sample)
qed

lemma st_mixed_eval:
  "st_mixed = Stored \<lparr> version = 1, lastUpdated = 345602000,
     deployments = [(deployed_record ''0xdef'' ''0x02'' 2000)\<lparr> sunset := Some True \<rparr>,
       (fresh_record 1000)\<lparr> status := Some SunsetStatus,
         reason := ''Low engagement: 0 transfers, 0 holders, score: 5/100'' \<rparr>] \<rparr>"
  by (simp add: st_mixed_def sunsetDeployment_def st_sunset_eval saveMemory_def
        fresh_record_def deployed_record_def Let_def)

theorem processSunset_persists_then_announces_witness:
  "(\<exists>st1 trace res.
      processSunset 345601000 st_two ''signer-uuid'' (FetchThrows ''network down'')
        (fresh_record 1000) sample_metrics = Inr (st1, trace, res)
      \<and> r_reason res = ''Low engagement: 0 transfers, 0 holders, score: 5/100''
      \<and> (\<exists>after. loadMemory 345609000 st1 = Ledger after
            \<and> status (deployments after ! 1) = Some SunsetStatus
            \<and> reason (deployments after ! 1)
                = ''Low engagement: 0 transfers, 0 holders, score: 5/100''
            \<and> trace = [WriteFile after,
                        AnnounceCall (sunsetText ''Moltchain Contract''
                          ''Low engagement: 0 transfers, 0 holders, score: 5/100'')]))"
proof -
  let ?mem = "\<lparr> version = 1, lastUpdated = 2000,
     deployments = [deployed_record ''0xdef'' ''0x02'' 2000, fresh_record 1000] \<rparr>"
  have l: "loadMemory 345601000 st_two = Ledger ?mem"
    by (simp add: st_two_eval)
  obtain st1 trace res where e:
    "processSunset 345601000 st_two ''signer-uuid'' (FetchThrows ''network down'')
        (fresh_record 1000) sample_metrics = Inr (st1, trace, res)"
    unfolding processSunset_Ledger [OF l] by blast
  have a: "address (fresh_record 1000) = ''0xabc''" "name (fresh_record 1000) = ''Moltchain Contract''"
    by (simp_all add: fresh_record_def deployed_record_def)
  have f: "findIndex (\<lambda>d. address d = address (fresh_record 1000)) (deployments ?mem) = Some 1"
    by (simp add: fresh_record_def deployed_record_def)
  have m: "transferCount sample_metrics = 0" "uniqueHolders sample_metrics = 0"
    "engagementScore sample_metrics = 5"
    by (simp_all add: sample_metrics_eval)
  have n: "string_of_nat 0 = ''0''" "string_of_int 5 = ''5''"
    by code_simp+
  note T = processSunset_persists_then_announces
    [OF e, of "''other''" "CastOk ''0xcafe''" ?mem 1 345609000]
  have r: "r_reason res = ''Low engagement: 0 transfers, 0 holders, score: 5/100''"
    using T by (simp add: m n)
  have "\<exists>after. loadMemory 345609000 st1 = Ledger after
            \<and> status (deployments after ! 1) = Some SunsetStatus
            \<and> reason (deployments after ! 1) = r_reason res
            \<and> trace = [WriteFile after,
                        AnnounceCall (sunsetText (name (fresh_record 1000)) (r_reason res))]"
    using T l f by blast
  then have "r_reason res = ''Low engagement: 0 transfers, 0 holders, score: 5/100''
      \<and> (\<exists>after. loadMemory 345609000 st1 = Ledger after
            \<and> status (deployments after ! 1) = Some SunsetStatus
            \<and> reason (deployments after ! 1)
                = ''Low engagement: 0 transfers, 0 holders, score: 5/100''
            \<and> trace = [WriteFile after,
                        AnnounceCall (sunsetText ''Moltchain Contract''
                          ''Low engagement: 0 transfers, 0 holders, score: 5/100'')])"
    using r by (simp add: a)
  then show ?thesis using e by blast
qed

theorem sunset_reason_and_announced_counterexample:
  "sample_metrics = analyzeEngagement (fresh_record 1000) 0 0 2 345601000
   \<and> recommendation sample_metrics = Sunset
   \<and> (\<exists>st1 trace.
        processSunset 345601000 st_two ''signer-uuid'' (NotOk 500 ''unavailable'')
          (fresh_record 1000) sample_metrics
        = Inr (st1, trace,
               \<lparr> r_address = ''0xabc'', r_name = ''Moltchain Contract'',
                 r_reason = ''Low engagement: 0 transfers, 0 holders, score: 5/100'',
                 sunsetAt = 345601000, announced = True \<rparr>))
   \<and> \<not> includes_str ''Low engagement: 0 transfers, 0 holders, score: 5/100'' (string_of_nat 2)
   \<and> announceSunset ''signer-uuid'' (NotOk 500 ''unavailable'') (name (fresh_record 1000))
         ''base'' (sunsetReason sample_metrics)
       = Inr \<lparr> success = False, castHash = None,
               cast_error = Some ''Neynar API error: 500 - unavailable'' \<rparr>"
proof -
  have l: "loadMemory 345601000 st_two = Ledger \<lparr> version = 1, lastUpdated = 2000,
     deployments = [deployed_record ''0xdef'' ''0x02'' 2000, fresh_record 1000] \<rparr>"
    by (simp add: st_two_eval)
  have a: "recommendation sample_metrics = Sunset"
    by (simp add: sample_metrics_eval)
  have b: "\<not> includes_str ''Low engagement: 0 transfers, 0 holders, score: 5/100''
             (string_of_nat 2)"
    by code_simp
  have c: "string_of_nat 500 = ''500''"
    by code_simp
  have d: "sample_metrics = analyzeEngagement (fresh_record 1000) 0 0 2 345601000"
    by (simp add: sample_metrics_def)
  have e: "name (fresh_record 1000) = ''Moltchain Contract''"
    "address (fresh_record 1000) = ''0xabc''"
    by (simp_all add: fresh_record_def deployed_record_def)
  have p: "\<exists>st1 trace.
        processSunset 345601000 st_two ''signer-uuid'' (NotOk 500 ''unavailable'')
          (fresh_record 1000) sample_metrics
        = Inr (st1, trace,
               \<lparr> r_address = ''0xabc'', r_name = ''Moltchain Contract'',
                 r_reason = ''Low engagement: 0 transfers, 0 holders, score: 5/100'',
                 sunsetAt = 345601000, announced = True \<rparr>)"
    unfolding processSunset_Ledger [OF l] by (simp add: e sunsetReason_sample)
  have q: "announceSunset ''signer-uuid'' (NotOk 500 ''unavailable'') (name (fresh_record 1000))
         ''base'' (sunsetReason sample_metrics)
       = Inr \<lparr> success = False, castHash = None,
               cast_error = Some ''Neynar API error: 500 - unavailable'' \<rparr>"
    by (simp add: announceSunset_def postCast_def c)
  show ?thesis using a b d p q by blast
qed

section \<open>The two status reports\<close>

lemma count_overlap:
  "length (filter A ds) + length (filter S ds) + length (filter (\<lambda>d. \<not> A d \<and> \<not> S d) ds)
     = length ds + length (filter (\<lambda>d. A d \<and> S d) ds)"
  by (induction ds) auto

lemma filter_nonempty: "r \<in> set ds \<Longrightarrow> P r \<Longrightarrow> 0 < length (filter P ds)"
  by (induction ds) auto

lemma counted_twice:
  assumes "r \<in> set ds" "S r" "A r" "\<forall>d \<in> set ds. \<not> A d \<longrightarrow> S d"
  shows "length ds < length (filter A ds) + length (filter S ds)"
proof -
  have "filter (\<lambda>d. \<not> A d \<and> \<not> S d) ds = []"
    using assms(4) by (auto simp: filter_empty_conv)
  moreover have "0 < length (filter (\<lambda>d. A d \<and> S d) ds)"
    using assms(1-3) filter_nonempty [of r ds "\<lambda>d. A d \<and> S d"] by simp
  ultimately show ?thesis using count_overlap [of A ds S] by simp
qed

text \<open>
  Claim C10, as amended. \<open>getDeploymentStats\<close> counts a record as active exactly when
  its legacy \<open>sunset\<close> flag is falsy, and \<open>getSunsetStats\<close> counts the records whose
  status is sunset. A record with status sunset and no legacy flag (what \<open>processSunset\<close>
  leaves) is counted as active; and when no record of the ledger carries the legacy flag
  without the status sunset, the active count plus the sunset total exceeds the number of
  records.
\<close>

theorem stats_count_sunset_record_as_active:
  assumes "loadMemory now st = Ledger mem"
  shows "\<exists>ds ss. getDeploymentStats now st = Inr ds \<and> getSunsetStats now st = Inr ss
     \<and> active ds = length (filter (\<lambda>d. \<not> truthy (sunset d)) (deployments mem))
     \<and> s_total ss = length (filter (\<lambda>d. status d = Some SunsetStatus) (deployments mem))
     \<and> total ds = length (deployments mem)
     \<and> (r \<in> set (deployments mem) \<and> status r = Some SunsetStatus
          \<and> \<not> truthy (sunset r) \<longrightarrow>
        r \<in> set (filter (\<lambda>d. \<not> truthy (sunset d)) (deployments mem))
        \<and> 0 < active ds
        \<and> ((\<forall>d \<in> set (deployments mem).
                truthy (sunset d) \<longrightarrow> status d = Some SunsetStatus) \<longrightarrow>
             total ds < active ds + s_total ss))"
proof -
  let ?ds = "deployments mem"
  obtain ds where ds: "getDeploymentStats now st = Inr ds"
    "active ds = length (filter (\<lambda>d. \<not> truthy (sunset d)) ?ds)"
    "total ds = length ?ds"
    using assms by (simp add: getDeploymentStats_def)
  obtain ss where ss: "getSunsetStats now st = Inr ss"
    "s_total ss = length (filter (\<lambda>d. status d = Some SunsetStatus) ?ds)"
    using assms by (simp add: getSunsetStats_def Let_def)
  have more: "length ?ds < length (filter (\<lambda>d. \<not> truthy (sunset d)) ?ds)
        + length (filter (\<lambda>d. status d = Some SunsetStatus) ?ds)"
    if "r \<in> set ?ds" "status r = Some SunsetStatus" "\<not> truthy (sunset r)"
      "\<forall>d \<in> set ?ds. truthy (sunset d) \<longrightarrow> status d = Some SunsetStatus"
    using that counted_twice [of r ?ds "\<lambda>d. status d = Some SunsetStatus"
        "\<lambda>d. \<not> truthy (sunset d)"]
    by simp
  have pos: "0 < length (filter (\<lambda>d. \<not> truthy (sunset d)) ?ds)"
    if "r \<in> set ?ds" "\<not> truthy (sunset r)"
    using that filter_nonempty [of r ?ds "\<lambda>d. \<not> truthy (sunset d)"] by simp
  have "active ds = length (filter (\<lambda>d. \<not> truthy (sunset d)) ?ds)
     \<and> s_total ss = length (filter (\<lambda>d. status d = Some SunsetStatus) ?ds)
     \<and> total ds = length ?ds
     \<and> (r \<in> set ?ds \<and> status r = Some SunsetStatus \<and> \<not> truthy (sunset r) \<longrightarrow>
        r \<in> set (filter (\<lambda>d. \<not> truthy (sunset d)) ?ds)
        \<and> 0 < active ds
        \<and> ((\<forall>d \<in> set ?ds. truthy (sunset d) \<longrightarrow> status d = Some SunsetStatus) \<longrightarrow>
             total ds < active ds + s_total ss))"
    unfolding ds(2,3) ss(2) using more pos by auto
  then show ?thesis using ds(1) ss(1) by blast
qed

theorem stats_count_sunset_record_as_active_witness:
  "\<exists>ds ss. getDeploymentStats 345603000 st_sunset = Inr ds
     \<and> getSunsetStats 345603000 st_sunset = Inr ss
     \<and> total ds = 2 \<and> active ds = 2 \<and> s_total ss = 1
     \<and> total ds < active ds + s_total ss"
proof -
  let ?r = "(fresh_record 1000)\<lparr> status := Some SunsetStatus,
         reason := ''Low engagement: 0 transfers, 0 holders, score: 5/100'' \<rparr>"
  let ?mem = "\<lparr> version = 1, lastUpdated = 345601000,
     deployments = [deployed_record ''0xdef'' ''0x02'' 2000, ?r] \<rparr>"
  have l: "loadMemory 345603000 st_sunset = Ledger ?mem"
    by (simp add: st_sunset_eval)
  have f: "sunset (deployed_record a h ts) = None" "status (deployed_record a h ts) = None"
    "sunset (fresh_record ts) = None" for a h ts
    by (simp_all add: deployed_record_def fresh_record_def)
  obtain ds ss where s: "getDeploymentStats 345603000 st_sunset = Inr ds"
    "getSunsetStats 345603000 st_sunset = Inr ss"
    "active ds = 2" "s_total ss = 1" "total ds = 2" "total ds < active ds + s_total ss"
    using stats_count_sunset_record_as_active [OF l, of ?r]
    by (auto simp: f truthy_def)
  then show ?thesis by blast
qed

theorem stats_sum_exceeds_total_counterexample:
  "(\<exists>trace res.
      processSunset 345601000 st_two ''signer-uuid'' (CastOk ''0xcafe'') (fresh_record 1000)
        sample_metrics = Inr (st_sunset, trace, res))
   \<and> sunsetDeployment 345602000 st_sunset ''0xdef'' = Inr st_mixed
   \<and> (\<exists>mem ds ss. loadMemory 345603000 st_mixed = Ledger mem
        \<and> deployments mem ! 1 \<in> set (deployments mem)
        \<and> status (deployments mem ! 1) = Some SunsetStatus
        \<and> \<not> truthy (sunset (deployments mem ! 1))
        \<and> getDeploymentStats 345603000 st_mixed = Inr ds
        \<and> getSunsetStats 345603000 st_mixed = Inr ss
        \<and> total ds = 2 \<and> active ds = 1 \<and> s_total ss = 1
        \<and> \<not> (total ds < active ds + s_total ss))"
proof -
  have l: "loadMemory 345601000 st_two = Ledger \<lparr> version = 1, lastUpdated = 2000,
     deployments = [deployed_record ''0xdef'' ''0x02'' 2000, fresh_record 1000] \<rparr>"
    by (simp add: st_two_eval)
  have p: "\<exists>trace res.
      processSunset 345601000 st_two ''signer-uuid'' (CastOk ''0xcafe'') (fresh_record 1000)
        sample_metrics = Inr (st_sunset, trace, res)"
    unfolding processSunset_Ledger [OF l] st_sunset_eval
    by (simp add: fresh_record_def deployed_record_def markSunset_def sunsetReason_sample)
  have q: "sunsetDeployment 345602000 st_sunset ''0xdef'' = Inr st_mixed"
    unfolding st_mixed_eval
    by (simp add: sunsetDeployment_def st_sunset_eval saveMemory_def fresh_record_def
          deployed_record_def)
  have r: "\<exists>mem ds ss. loadMemory 345603000 st_mixed = Ledger mem
        \<and> deployments mem ! 1 \<in> set (deployments mem)
        \<and> status (deployments mem ! 1) = Some SunsetStatus
        \<and> \<not> truthy (sunset (deployments mem ! 1))
        \<and> getDeploymentStats 345603000 st_mixed = Inr ds
        \<and> getSunsetStats 345603000 st_mixed = Inr ss
        \<and> total ds = 2 \<and> active ds = 1 \<and> s_total ss = 1
        \<and> \<not> (total ds < active ds + s_total ss)"
    by (simp add: st_mixed_eval getDeploymentStats_def getSunsetStats_def truthy_def
          fresh_record_def deployed_record_def Let_def)
  show ?thesis using p q r by blast
qed

end
